theory Spec2Isabelle
  imports Complex_Main "HOL-Library.Word"
begin

unbundle bit_operations_syntax

section \<open>Python values used by the Wavetable class\<close>

text \<open>
  The class \<^verbatim>\<open>Wavetable\<close> of \<^verbatim>\<open>wtt.py\<close> keeps raw sample data as a Python
  \<^verbatim>\<open>bytes\<close> object and all header fields as unbounded Python integers. A byte is an
  8-bit word, a byte string a list of bytes, an integer an \<open>int\<close>. Every exception the
  modelled code can raise is a value of \<open>py_error\<close>; a method that raises returns
  \<open>Inl\<close> of it.
\<close>

type_synonym byte = "8 word"

datatype py_error =
  TypeError | ValueError | ZeroDivisionError | OverflowError | IndexError | AttributeError

definition ascii :: "string \<Rightarrow> byte list" where
  "ascii s = map of_char s"

text \<open>
  \<^verbatim>\<open>range(start, stop, step)\<close> for a nonzero step, as the list of its members. The
  caller checks the step: Python raises \<^verbatim>\<open>ValueError\<close> for a zero step.
\<close>

function py_range :: "int \<Rightarrow> int \<Rightarrow> int \<Rightarrow> int list" where
  "py_range i stop step =
     (if 0 < step \<and> i < stop then i # py_range (i + step) stop step
      else if step < 0 \<and> stop < i then i # py_range (i + step) stop step
      else [])"
  by pat_completeness auto
termination
  by (relation "measure (\<lambda>(i, stop, step). if 0 < step then nat (stop - i) else nat (i - stop))")
    auto

declare py_range.simps [simp del]

text \<open>
  The slice \<^verbatim>\<open>xs[i:j]\<close>: a negative bound counts from the end, and both bounds are
  clamped to the length.
\<close>

definition py_slice :: "'a list \<Rightarrow> int \<Rightarrow> int \<Rightarrow> 'a list" where
  "py_slice xs i j =
     (let n = int (length xs);
          lo = (if i < 0 then max 0 (n + i) else min i n);
          hi = (if j < 0 then max 0 (n + j) else min j n)
      in take (nat (hi - lo)) (drop (nat lo) xs))"

subsection \<open>Integers and bytes\<close>

text \<open>
  \<^verbatim>\<open>x.to_bytes(n, 'little')\<close> raises \<^verbatim>\<open>OverflowError\<close> for a negative \<open>x\<close> and for
  one that does not fit into \<open>n\<close> bytes; \<^verbatim>\<open>int.from_bytes(bs, 'little')\<close> accepts any
  length, the empty byte string being 0.
\<close>

fun le_bytes :: "nat \<Rightarrow> int \<Rightarrow> byte list" where
  "le_bytes 0 x = []"
| "le_bytes (Suc n) x = word_of_int x # le_bytes n (x div 256)"

definition to_bytes :: "int \<Rightarrow> nat \<Rightarrow> py_error + byte list" where
  "to_bytes x n = (if x < 0 \<or> 256 ^ n \<le> x then Inl OverflowError else Inr (le_bytes n x))"

fun from_bytes :: "byte list \<Rightarrow> int" where
  "from_bytes [] = 0"
| "from_bytes (b # bs) = uint b + 256 * from_bytes bs"

text \<open>The decimal digits of an integer, as an f-string formats it (\<^verbatim>\<open>str\<close>).\<close>

function decimal :: "nat \<Rightarrow> byte list" where
  "decimal n = (if n < 10 then [0x30 + of_nat n] else decimal (n div 10) @ [0x30 + of_nat (n mod 10)])"
  by pat_completeness auto
termination
  by (relation "measure id") auto

declare decimal.simps [simp del]

definition py_str :: "int \<Rightarrow> byte list" where
  "py_str x = (if x < 0 then 0x2D # decimal (nat (- x)) else decimal (nat x))"

text \<open>
  \<^verbatim>\<open>int(bs)\<close> on a byte string, base 10: surrounding ASCII whitespace is skipped, one
  sign may come first, and single underscores may stand between digits; anything else
  raises \<^verbatim>\<open>ValueError\<close>. (The interpreter's limit of 4300 digits is out of reach: the
  code converts slices of at most four bytes.)
\<close>

definition is_space :: "byte \<Rightarrow> bool" where
  "is_space c = (c = 0x20 \<or> (0x09 \<le> c \<and> c \<le> 0x0D))"

definition is_digit :: "byte \<Rightarrow> bool" where
  "is_digit c = (0x30 \<le> c \<and> c \<le> 0x39)"

definition digit_value :: "byte \<Rightarrow> int" where
  "digit_value c = uint c - 0x30"

fun py_digits :: "byte list \<Rightarrow> int \<Rightarrow> int option" where
  "py_digits [] acc = Some acc"
| "py_digits (c # cs) acc =
     (if is_digit c then py_digits cs (10 * acc + digit_value c)
      else if c = 0x5F then
        (case cs of
           [] \<Rightarrow> None
         | d # ds \<Rightarrow> if is_digit d then py_digits ds (10 * acc + digit_value d) else None)
      else None)"

definition py_int :: "byte list \<Rightarrow> py_error + int" where
  "py_int bs =
     (let s = rev (dropWhile is_space (rev (dropWhile is_space bs)));
          (sign, body) = (case s of
                            [] \<Rightarrow> (1, [])
                          | c # cs \<Rightarrow> if c = 0x2D then (- 1, cs) else if c = 0x2B then (1, cs) else (1, s))
      in case body of
           [] \<Rightarrow> Inl ValueError
         | c # cs \<Rightarrow>
             if is_digit c
             then (case py_digits cs (digit_value c) of None \<Rightarrow> Inl ValueError | Some n \<Rightarrow> Inr (sign * n))
             else Inl ValueError)"

subsection \<open>True division\<close>

text \<open>
  \<^verbatim>\<open>a / b\<close> on two integers is a float: the IEEE double nearest to the exact quotient,
  ties to even, \<^verbatim>\<open>ZeroDivisionError\<close> for a zero divisor and \<^verbatim>\<open>OverflowError\<close> when
  the rounded quotient is beyond the largest double. A finite double is the pair
  \<open>(m, p)\<close> of an integer significand and an exponent, with value \<open>m * 2 ^ p\<close>.
  \<open>float_exponent a b\<close> is \<open>\<lfloor>log\<^sub>2 (a / b)\<rfloor>\<close>; a normal double keeps 53 significant
  bits, a subnormal one has the fixed exponent \<open>- 1074\<close>. \<^verbatim>\<open>int(x)\<close> truncates towards
  zero.
\<close>

fun bit_length :: "nat \<Rightarrow> nat" where
  "bit_length n = (if n = 0 then 0 else Suc (bit_length (n div 2)))"

declare bit_length.simps [simp del]

definition round_half_even :: "int \<Rightarrow> int \<Rightarrow> int" where
  "round_half_even n d =
     (let q = n div d; r = n mod d
      in if 2 * r < d then q else if d < 2 * r then q + 1 else if even q then q else q + 1)"

definition float_exponent :: "nat \<Rightarrow> nat \<Rightarrow> int" where
  "float_exponent a b =
     (let d = int (bit_length a) - int (bit_length b)
      in if (if 0 \<le> d then b * 2 ^ nat d \<le> a else b \<le> a * 2 ^ nat (- d)) then d else d - 1)"

definition py_truediv :: "int \<Rightarrow> int \<Rightarrow> py_error + int \<times> int" where
  "py_truediv a b =
     (if b = 0 then Inl ZeroDivisionError
      else if a = 0 then Inr (0, 0)
      else
        (let n = nat \<bar>a\<bar>; d = nat \<bar>b\<bar>;
             e = float_exponent n d;
             p = max e (- 1022) - 52;
             m = (if 0 \<le> p then round_half_even (int n) (int d * 2 ^ nat p)
                  else round_half_even (int n * 2 ^ nat (- p)) (int d))
         in if 1024 \<le> e \<or> (e = 1023 \<and> m = 2 ^ 53) then Inl OverflowError
            else Inr (sgn a * sgn b * m, p)))"

definition py_int_of_float :: "int \<times> int \<Rightarrow> int" where
  "py_int_of_float x =
     (case x of (m, p) \<Rightarrow> if 0 \<le> p then m * 2 ^ nat p else sgn m * (\<bar>m\<bar> div 2 ^ nat (- p)))"

text \<open>\<^verbatim>\<open>int(a / b)\<close>, the form in which the class divides.\<close>

definition py_int_truediv :: "int \<Rightarrow> int \<Rightarrow> py_error + int" where
  "py_int_truediv a b = (case py_truediv a b of Inl e \<Rightarrow> Inl e | Inr x \<Rightarrow> Inr (py_int_of_float x))"

subsection \<open>Files\<close>

text \<open>
  A file opened for reading is its content and a position. \<^verbatim>\<open>read(n)\<close> returns at most
  \<open>n\<close> bytes from the position on and moves the position behind them; a position at or
  beyond the end yields the empty byte string. \<^verbatim>\<open>seek\<close> just sets the position.
\<close>

definition file_read :: "byte list \<Rightarrow> nat \<Rightarrow> nat \<Rightarrow> byte list \<times> nat" where
  "file_read f pos n = (let bs = take n (drop pos f) in (bs, pos + length bs))"

text \<open>
  A file opened for writing receives a sequence of \<^verbatim>\<open>write\<close> calls. The argument of a
  call is computed first and may raise; the file then keeps what the earlier calls wrote
  (the \<^verbatim>\<open>with\<close> block closes it). \<open>Written\<close> is the content after a complete run,
  \<open>Failed\<close> the exception and the content left behind, \<open>No_File\<close> a return before
  the file is opened.
\<close>

datatype write_result = No_File | Written "byte list" | Failed py_error "byte list"

fun write_all :: "(py_error + byte list) list \<Rightarrow> byte list \<Rightarrow> byte list \<times> py_error option" where
  "write_all [] out = (out, None)"
| "write_all (Inl e # ws) out = (out, Some e)"
| "write_all (Inr bs # ws) out = write_all ws (out @ bs)"

section \<open>The Wavetable record\<close>

text \<open>
  The attributes of a \<^verbatim>\<open>Wavetable\<close> instance. \<^verbatim>\<open>data_samples\<close> and
  \<^verbatim>\<open>wave_count\<close> start as \<^verbatim>\<open>None\<close>; the other attributes are integers from the
  constructor on (and \<^verbatim>\<open>wave_vendor\<close> a byte string), so the test
  \<^verbatim>\<open>self.wave_size is None\<close> in \<^verbatim>\<open>slicer\<close> never holds and is left out.
\<close>

record wavetable =
  data_samples :: "byte list option"
  fmt_audio_format :: int
  fmt_bits_p_sample :: int
  fmt_bytes_p_block :: int
  fmt_bytes_p_sec :: int
  fmt_channels :: int
  fmt_sample_rate :: int
  wave_count :: "int option"
  wave_interp :: int
  wave_size :: int
  wave_vendor :: "byte list"

text \<open>\<^verbatim>\<open>Wavetable({})\<close>: the constructor's defaults.\<close>

definition wavetable_init :: wavetable where
  "wavetable_init =
     \<lparr>data_samples = None,
      fmt_audio_format = 1,
      fmt_bits_p_sample = 16,
      fmt_bytes_p_block = 2,
      fmt_bytes_p_sec = 176400,
      fmt_channels = 1,
      fmt_sample_rate = 88200,
      wave_count = None,
      wave_interp = 0,
      wave_size = 2048,
      wave_vendor = ascii ''wavetable (wavetabletools)''\<rparr>"

subsection \<open>Derived fields\<close>

text \<open>
  \<^verbatim>\<open>calc_wave_count\<close> evaluates \<^verbatim>\<open>len(self.data_samples)\<close> first, which raises
  \<^verbatim>\<open>TypeError\<close> on \<^verbatim>\<open>None\<close>. \<^verbatim>\<open>calc_fmt_bytes_p_sec\<close> converts an integer
  product with \<^verbatim>\<open>int\<close>, which changes nothing.
\<close>

definition calc_fmt_bytes_p_block :: "wavetable \<Rightarrow> py_error + int" where
  "calc_fmt_bytes_p_block r = py_int_truediv (fmt_channels r * fmt_bits_p_sample r) 8"

definition calc_fmt_bytes_p_sec :: "wavetable \<Rightarrow> int" where
  "calc_fmt_bytes_p_sec r = fmt_sample_rate r * fmt_bytes_p_block r"

definition calc_wave_count :: "wavetable \<Rightarrow> py_error + int" where
  "calc_wave_count r =
     (case data_samples r of
        None \<Rightarrow> Inl TypeError
      | Some d \<Rightarrow> py_int_truediv (int (length d)) (wave_size r * fmt_bytes_p_block r))"

text \<open>
  The keyword arguments of \<^verbatim>\<open>set_data\<close>, each \<^verbatim>\<open>None\<close> unless given. The vendor
  string is passed as the bytes its \<^verbatim>\<open>ansi\<close> encoding yields. \<^verbatim>\<open>any([...])\<close> tests
  truthiness: an argument that is \<^verbatim>\<open>None\<close> or 0 does not count.
\<close>

record set_data_args =
  arg_fmt_audio_format :: "int option"
  arg_fmt_bits_p_sample :: "int option"
  arg_fmt_bytes_p_block :: "int option"
  arg_fmt_bytes_p_sec :: "int option"
  arg_fmt_channels :: "int option"
  arg_fmt_sample_rate :: "int option"
  arg_wave_count :: "int option"
  arg_wave_interp :: "int option"
  arg_wave_size :: "int option"
  arg_wave_vendor :: "byte list option"
  arg_recalc :: bool

definition no_args :: set_data_args where
  "no_args =
     \<lparr>arg_fmt_audio_format = None, arg_fmt_bits_p_sample = None, arg_fmt_bytes_p_block = None,
      arg_fmt_bytes_p_sec = None, arg_fmt_channels = None, arg_fmt_sample_rate = None,
      arg_wave_count = None, arg_wave_interp = None, arg_wave_size = None,
      arg_wave_vendor = None, arg_recalc = False\<rparr>"

definition truthy :: "int option \<Rightarrow> bool" where
  "truthy x = (case x of None \<Rightarrow> False | Some n \<Rightarrow> n \<noteq> 0)"

text \<open>The test \<^verbatim>\<open>recalc is True and any([...])\<close> of \<^verbatim>\<open>set_data\<close>.\<close>

definition recalculates :: "set_data_args \<Rightarrow> bool" where
  "recalculates a =
     (arg_recalc a
      \<and> (truthy (arg_fmt_bits_p_sample a) \<or> truthy (arg_fmt_channels a)
         \<or> truthy (arg_fmt_sample_rate a) \<or> truthy (arg_wave_size a)))"

text \<open>
  \<^verbatim>\<open>set_data\<close> first assigns every attribute whose argument is given
  (\<open>set_data_fields\<close>, the ten \<^verbatim>\<open>if ... is not None\<close> statements in their order) and
  then recalculates when asked to. The recalculation assigns attribute by attribute, so
  an exception leaves the assignments made before it. The result is the record and
  \<open>Inr ()\<close> for a normal return.
\<close>

definition set_data_fields :: "wavetable \<Rightarrow> set_data_args \<Rightarrow> wavetable" where
  "set_data_fields r a =
     (let r = (case arg_fmt_audio_format a of None \<Rightarrow> r | Some v \<Rightarrow> r\<lparr>fmt_audio_format := v\<rparr>);
          r = (case arg_fmt_bits_p_sample a of None \<Rightarrow> r | Some v \<Rightarrow> r\<lparr>fmt_bits_p_sample := v\<rparr>);
          r = (case arg_fmt_bytes_p_block a of None \<Rightarrow> r | Some v \<Rightarrow> r\<lparr>fmt_bytes_p_block := v\<rparr>);
          r = (case arg_fmt_bytes_p_sec a of None \<Rightarrow> r | Some v \<Rightarrow> r\<lparr>fmt_bytes_p_sec := v\<rparr>);
          r = (case arg_fmt_channels a of None \<Rightarrow> r | Some v \<Rightarrow> r\<lparr>fmt_channels := v\<rparr>);
          r = (case arg_fmt_sample_rate a of None \<Rightarrow> r | Some v \<Rightarrow> r\<lparr>fmt_sample_rate := v\<rparr>);
          r = (case arg_wave_count a of None \<Rightarrow> r | Some v \<Rightarrow> r\<lparr>wave_count := Some v\<rparr>);
          r = (case arg_wave_interp a of None \<Rightarrow> r | Some v \<Rightarrow> r\<lparr>wave_interp := v\<rparr>);
          r = (case arg_wave_size a of None \<Rightarrow> r | Some v \<Rightarrow> r\<lparr>wave_size := v\<rparr>);
          r = (case arg_wave_vendor a of None \<Rightarrow> r | Some v \<Rightarrow> r\<lparr>wave_vendor := v\<rparr>)
      in r)"

definition set_data :: "wavetable \<Rightarrow> set_data_args \<Rightarrow> wavetable \<times> (py_error + unit)" where
  "set_data r a =
     (let r = set_data_fields r a
      in if recalculates a
         then (case calc_fmt_bytes_p_block r of
                 Inl e \<Rightarrow> (r, Inl e)
               | Inr block \<Rightarrow>
                   (let r = r\<lparr>fmt_bytes_p_block := block\<rparr>;
                        r = r\<lparr>fmt_bytes_p_sec := calc_fmt_bytes_p_sec r\<rparr>
                    in case calc_wave_count r of
                         Inl e \<Rightarrow> (r, Inl e)
                       | Inr c \<Rightarrow> (r\<lparr>wave_count := Some c\<rparr>, Inr ())))
         else (r, Inr ()))"

section \<open>The WT codec\<close>

definition is_sample :: "int \<Rightarrow> bool" where
  "is_sample flags = (flags AND 1 \<noteq> 0)"

definition is_looped :: "int \<Rightarrow> bool" where
  "is_looped flags = (flags AND 2 \<noteq> 0)"

definition is_int16 :: "int \<Rightarrow> bool" where
  "is_int16 flags = (flags AND 4 \<noteq> 0)"

definition is_full_range :: "int \<Rightarrow> bool" where
  "is_full_range flags = (flags AND 8 \<noteq> 0)"

definition wt_set_flag :: "wavetable \<Rightarrow> bool \<Rightarrow> bool \<Rightarrow> bool \<Rightarrow> int" where
  "wt_set_flag r sample looped full_range =
     (let flag = 0;
          flag = (if sample then flag OR 1 else flag);
          flag = (if looped then flag OR 2 else flag)
      in if fmt_bits_p_sample r = 16
         then (let flag = flag OR 4 in if full_range then flag OR 8 else flag)
         else flag)"

text \<open>
  \<^verbatim>\<open>wt_parse_flags\<close> returns \<^verbatim>\<open>True\<close> for a sample or a looped sample and
  \<^verbatim>\<open>None\<close> (here \<open>False\<close>) otherwise; the full-range flag is read and ignored.
\<close>

definition wt_parse_flags :: "wavetable \<Rightarrow> int \<Rightarrow> wavetable \<times> bool" where
  "wt_parse_flags r flags =
     (if is_sample flags then (r, True)
      else if is_looped flags then (r, True)
      else (let r = (if is_int16 flags then r\<lparr>fmt_bits_p_sample := 16\<rparr>
                     else r\<lparr>fmt_bits_p_sample := 32\<rparr>)
            in (r, False)))"

text \<open>
  \<^verbatim>\<open>wt_import\<close> on a file with content \<open>f\<close>: the result is \<open>Inr True\<close> when the file
  is to be skipped, \<open>Inr False\<close> for the implicit \<^verbatim>\<open>None\<close> of a complete import.
\<close>

definition wt_import :: "wavetable \<Rightarrow> byte list \<Rightarrow> wavetable \<times> (py_error + bool)" where
  "wt_import r f =
     (let pos = 4;
          (bs, pos) = file_read f pos 4;
          r = r\<lparr>wave_size := from_bytes bs\<rparr>;
          (bs, pos) = file_read f pos 2;
          r = r\<lparr>wave_count := Some (from_bytes bs)\<rparr>;
          (bs, pos) = file_read f pos 2;
          flags = from_bytes bs;
          (r, stop_importing) = wt_parse_flags r flags
      in if stop_importing then (r, Inr True)
         else (let r = r\<lparr>data_samples := Some (drop pos f)\<rparr>
               in case set_data r (no_args\<lparr>arg_recalc := True, arg_fmt_audio_format := Some 1,
                                            arg_fmt_channels := Some 1,
                                            arg_fmt_sample_rate := Some 88200\<rparr>) of
                    (r, Inl e) \<Rightarrow> (r, Inl e)
                  | (r, Inr u) \<Rightarrow> (r, Inr False)))"

text \<open>
  \<^verbatim>\<open>wt_write\<close> returns before opening the file unless the record is mono and
  \<^verbatim>\<open>wave_size\<close> passes the power-of-two test. \<^verbatim>\<open>self.wave_count.to_bytes\<close> raises
  \<^verbatim>\<open>AttributeError\<close> on \<^verbatim>\<open>None\<close>, and writing \<^verbatim>\<open>None\<close> raises \<^verbatim>\<open>TypeError\<close>.
\<close>

definition wt_write :: "wavetable \<Rightarrow> bool \<Rightarrow> bool \<Rightarrow> bool \<Rightarrow> write_result" where
  "wt_write r sample looped full_range =
     (if fmt_channels r \<noteq> 1 then No_File
      else if wave_size r AND (wave_size r - 1) \<noteq> 0 \<or> wave_size r = 0 then No_File
      else
        (case write_all
                [Inr [0x76, 0x61, 0x77, 0x74],
                 to_bytes (wave_size r) 4,
                 (case wave_count r of None \<Rightarrow> Inl AttributeError | Some c \<Rightarrow> to_bytes c 2),
                 to_bytes (wt_set_flag r sample looped full_range) 2,
                 (case data_samples r of None \<Rightarrow> Inl TypeError | Some d \<Rightarrow> Inr d)] [] of
           (out, None) \<Rightarrow> Written out
         | (out, Some e) \<Rightarrow> Failed e out))"

section \<open>The WAVE codec\<close>

definition is_riff :: "byte list \<Rightarrow> bool" where
  "is_riff chunk_id = (chunk_id = [0x52, 0x49, 0x46, 0x46])"

definition is_fmt :: "byte list \<Rightarrow> bool" where
  "is_fmt chunk_id = (chunk_id = [0x66, 0x6D, 0x74, 0x20])"

definition is_clm :: "byte list \<Rightarrow> bool" where
  "is_clm chunk_id = (chunk_id = [0x63, 0x6C, 0x6D, 0x20])"

definition is_data :: "byte list \<Rightarrow> bool" where
  "is_data chunk_id = (chunk_id = [0x64, 0x61, 0x74, 0x61])"

text \<open>
  \<^verbatim>\<open>not self.data_samples\<close> holds for \<^verbatim>\<open>None\<close> and for the empty byte string.
\<close>

definition no_samples :: "wavetable \<Rightarrow> bool" where
  "no_samples r = (case data_samples r of None \<Rightarrow> True | Some d \<Rightarrow> d = [])"

text \<open>
  \<^verbatim>\<open>wav_parse_chunk\<close> is called with the position behind the four bytes of the chunk
  id. It returns the record, the new position and \<open>Inr True\<close> when the import is to
  stop, \<open>Inr False\<close> for \<^verbatim>\<open>None\<close>. Each branch of its \<^verbatim>\<open>if\<close>/\<^verbatim>\<open>elif\<close> chain is
  a definition of its own, in the order of the source.
\<close>

text \<open>The \<^verbatim>\<open>RIFF\<close> branch skips the size field and checks the \<^verbatim>\<open>WAVE\<close> marker.\<close>

definition wav_parse_riff :: "wavetable \<Rightarrow> byte list \<Rightarrow> nat \<Rightarrow> wavetable \<times> nat \<times> (py_error + bool)" where
  "wav_parse_riff r f pos =
     (let pos = pos + 4;
          (bs, pos) = file_read f pos 4
      in if bs \<noteq> [0x57, 0x41, 0x56, 0x45] then (r, pos, Inr True) else (r, pos, Inr False))"

text \<open>The \<^verbatim>\<open>fmt \<close> branch skips the chunk size and reads six fields.\<close>

definition wav_parse_fmt :: "wavetable \<Rightarrow> byte list \<Rightarrow> nat \<Rightarrow> wavetable \<times> nat \<times> (py_error + bool)" where
  "wav_parse_fmt r f pos =
     (let pos = pos + 4;
          (bs, pos) = file_read f pos 2;
          r = r\<lparr>fmt_audio_format := from_bytes bs\<rparr>;
          (bs, pos) = file_read f pos 2;
          r = r\<lparr>fmt_channels := from_bytes bs\<rparr>;
          (bs, pos) = file_read f pos 4;
          r = r\<lparr>fmt_sample_rate := from_bytes bs\<rparr>;
          (bs, pos) = file_read f pos 4;
          r = r\<lparr>fmt_bytes_p_sec := from_bytes bs\<rparr>;
          (bs, pos) = file_read f pos 2;
          r = r\<lparr>fmt_bytes_p_block := from_bytes bs\<rparr>;
          (bs, pos) = file_read f pos 2;
          r = r\<lparr>fmt_bits_p_sample := from_bytes bs\<rparr>
      in (r, pos, Inr False))"

text \<open>
  The \<^verbatim>\<open>clm \<close> branch: \<^verbatim>\<open>wave_size\<close> is assigned before \<^verbatim>\<open>wave_interp\<close> is
  converted, so a \<^verbatim>\<open>ValueError\<close> of the second conversion leaves the first assignment.
\<close>

definition wav_parse_clm :: "wavetable \<Rightarrow> byte list \<Rightarrow> nat \<Rightarrow> wavetable \<times> nat \<times> (py_error + bool)" where
  "wav_parse_clm r f pos =
     (let (bs, pos) = file_read f pos 4;
          clm_size = from_bytes bs;
          (clm_data, pos) = file_read f pos (nat clm_size)
      in case py_int (py_slice clm_data 3 7) of
           Inl e \<Rightarrow> (r, pos, Inl e)
         | Inr ws \<Rightarrow>
             (let r = r\<lparr>wave_size := ws\<rparr>
              in case py_int (py_slice clm_data 8 9) of
                   Inl e \<Rightarrow> (r, pos, Inl e)
                 | Inr interp \<Rightarrow>
                     (r\<lparr>wave_interp := interp, wave_vendor := drop 17 clm_data\<rparr>, pos, Inr False)))"

text \<open>
  The \<^verbatim>\<open>data\<close> branch reads the size, and the payload only when the record has no
  samples yet; otherwise it logs a warning and leaves the position behind the size.
\<close>

definition wav_parse_data :: "wavetable \<Rightarrow> byte list \<Rightarrow> nat \<Rightarrow> wavetable \<times> nat \<times> (py_error + bool)" where
  "wav_parse_data r f pos =
     (let (bs, pos) = file_read f pos 4;
          data_size = from_bytes bs
      in if no_samples r then
           (let (bs, pos) = file_read f pos (nat data_size)
            in (r\<lparr>data_samples := Some bs\<rparr>, pos, Inr False))
         else (r, pos, Inr False))"

definition wav_parse_chunk ::
  "wavetable \<Rightarrow> byte list \<Rightarrow> nat \<Rightarrow> byte list \<Rightarrow> wavetable \<times> nat \<times> (py_error + bool)" where
  "wav_parse_chunk r f pos chunk_id =
     (if is_riff chunk_id then wav_parse_riff r f pos
      else if is_fmt chunk_id then wav_parse_fmt r f pos
      else if is_clm chunk_id then wav_parse_clm r f pos
      else if is_data chunk_id then wav_parse_data r f pos
      else (r, pos - 3, Inr False))"

text \<open>Whatever the chunk is, the position moves back by at most three bytes.\<close>

lemma file_read_snd_mono: "p \<le> q \<Longrightarrow> p \<le> snd (file_read f q n)"
  by (simp add: file_read_def Let_def)

lemma wav_parse_riff_position: "pos \<le> fst (snd (wav_parse_riff r f pos))"
  by (simp add: wav_parse_riff_def Let_def case_prod_beta file_read_snd_mono)

lemma wav_parse_fmt_position: "pos \<le> fst (snd (wav_parse_fmt r f pos))"
  by (simp add: wav_parse_fmt_def Let_def case_prod_beta file_read_snd_mono)

lemma wav_parse_clm_position: "pos \<le> fst (snd (wav_parse_clm r f pos))"
  by (simp add: wav_parse_clm_def Let_def case_prod_beta file_read_snd_mono split: sum.splits)

lemma wav_parse_data_position: "pos \<le> fst (snd (wav_parse_data r f pos))"
  by (simp add: wav_parse_data_def Let_def case_prod_beta file_read_snd_mono)

lemma wav_parse_chunk_position:
  assumes "wav_parse_chunk r f pos chunk_id = (r', pos', res)"
  shows "pos \<le> pos' + 3"
proof -
  have "pos \<le> fst (snd (wav_parse_chunk r f pos chunk_id)) + 3"
    using wav_parse_riff_position [of pos r f] wav_parse_fmt_position [of pos r f]
      wav_parse_clm_position [of pos r f] wav_parse_data_position [of pos r f]
    by (auto simp: wav_parse_chunk_def)
  then show ?thesis using assms by simp
qed

text \<open>
  The loop of \<^verbatim>\<open>wav_import\<close>: four bytes are read as a chunk id, fewer than four end
  the loop. An unknown id moves the position back by three, so the next id starts one
  byte later: every round advances, and the loop ends.
\<close>

function wav_import_loop :: "wavetable \<Rightarrow> byte list \<Rightarrow> nat \<Rightarrow> wavetable \<times> (py_error + bool)" where
  "wav_import_loop r f pos =
     (case file_read f pos 4 of
        (chunk_id, pos1) \<Rightarrow>
          if length chunk_id \<noteq> 4 then (r, Inr False)
          else (case wav_parse_chunk r f pos1 chunk_id of
                  (r', pos', Inl e) \<Rightarrow> (r', Inl e)
                | (r', pos', Inr stop_importing) \<Rightarrow>
                    if stop_importing then (r', Inr True) else wav_import_loop r' f pos'))"
  by pat_completeness auto
termination
proof (relation "measure (\<lambda>(r, f, pos). length f - pos)")
  show "wf (measure (\<lambda>(r, f, pos). length f - pos))" by simp
next
  fix r :: wavetable and f pos chunk_id pos1 r' rest pos' res stop_importing
  assume rd: "(chunk_id, pos1) = file_read f pos 4" and len: "\<not> length chunk_id \<noteq> 4"
    and pc: "(r', rest) = wav_parse_chunk r f pos1 chunk_id" and rest: "(pos', res) = rest"
    and "res = Inr stop_importing" and "\<not> stop_importing"
  from rd len have "pos + 4 \<le> length f" "pos1 = pos + 4"
    by (auto simp: file_read_def Let_def)
  moreover from pc rest have "wav_parse_chunk r f pos1 chunk_id = (r', pos', res)" by simp
  then have "pos1 \<le> pos' + 3" by (rule wav_parse_chunk_position)
  ultimately show "((r', f, pos'), r, f, pos) \<in> measure (\<lambda>(r, f, pos). length f - pos)"
    by simp
qed

declare wav_import_loop.simps [simp del]

text \<open>
  \<^verbatim>\<open>wav_import\<close> returns \<^verbatim>\<open>True\<close> from inside the loop when a chunk asks to stop, and
  recalculates \<^verbatim>\<open>wave_count\<close> after a complete pass over the file.
\<close>

definition wav_import :: "wavetable \<Rightarrow> byte list \<Rightarrow> wavetable \<times> (py_error + bool)" where
  "wav_import r f =
     (case wav_import_loop r f 0 of
        (r, Inl e) \<Rightarrow> (r, Inl e)
      | (r, Inr True) \<Rightarrow> (r, Inr True)
      | (r, Inr False) \<Rightarrow>
          (case calc_wave_count r of
             Inl e \<Rightarrow> (r, Inl e)
           | Inr c \<Rightarrow> (r\<lparr>wave_count := Some c\<rparr>, Inr False)))"

text \<open>
  The first statements of \<^verbatim>\<open>wav_write\<close> build the clm payload: the formatted preamble
  and the vendor bytes, padded with one zero byte to an even length. The f-string holds
  ASCII characters only, which the \<^verbatim>\<open>ansi\<close> codec encodes as themselves.
\<close>

definition wav_clm_data :: "wavetable \<Rightarrow> byte list" where
  "wav_clm_data r =
     (let clm_string = [0x3C, 0x21, 0x3E] @ py_str (wave_size r) @ [0x20] @ py_str (wave_interp r)
                         @ [0x30, 0x30, 0x30, 0x30, 0x30, 0x30, 0x30, 0x20];
          clm_data = clm_string @ wave_vendor r
      in if length clm_data mod 2 = 1 then clm_data @ [0x00] else clm_data)"

text \<open>
  \<^verbatim>\<open>wav_write\<close> then writes the chunks in order. After the last chunk the RIFF size
  at offset 4 is overwritten with the file length minus 8.
\<close>

definition wav_write :: "wavetable \<Rightarrow> write_result" where
  "wav_write r =
     (let clm_data = wav_clm_data r
      in case write_all
                [Inr [0x52, 0x49, 0x46, 0x46],
                 Inr [0x00, 0x00, 0x00, 0x00],
                 Inr [0x57, 0x41, 0x56, 0x45],
                 Inr [0x66, 0x6D, 0x74, 0x20],
                 Inr [0x10, 0x00, 0x00, 0x00],
                 to_bytes (fmt_audio_format r) 2,
                 to_bytes (fmt_channels r) 2,
                 to_bytes (fmt_sample_rate r) 4,
                 to_bytes (fmt_bytes_p_sec r) 4,
                 to_bytes (fmt_bytes_p_block r) 2,
                 to_bytes (fmt_bits_p_sample r) 2,
                 Inr [0x63, 0x6C, 0x6D, 0x20],
                 to_bytes (int (length clm_data)) 4,
                 Inr clm_data,
                 Inr [0x64, 0x61, 0x74, 0x61],
                 (case data_samples r of None \<Rightarrow> Inl TypeError | Some d \<Rightarrow> to_bytes (int (length d)) 4),
                 (case data_samples r of None \<Rightarrow> Inl TypeError | Some d \<Rightarrow> Inr d)] [] of
           (out, Some e) \<Rightarrow> Failed e out
         | (out, None) \<Rightarrow>
             (case to_bytes (int (length out) - 8) 4 of
                Inl e \<Rightarrow> Failed e out
              | Inr file_size \<Rightarrow> Written (take 4 out @ file_size @ drop 8 out)))"

subsection \<open>The layout of a WAVE file\<close>

text \<open>
  The RIFF header with a size field of zero, and the chunks as \<^verbatim>\<open>wav_write\<close> lays them
  out: a data chunk is the tag, the length of the payload in four bytes and the payload;
  the fmt chunk is the tag, the size 16 and six fields; the clm chunk is the tag, the
  length of the clm payload and the payload.
\<close>

definition riff_header :: "byte list" where
  "riff_header = [0x52, 0x49, 0x46, 0x46, 0x00, 0x00, 0x00, 0x00, 0x57, 0x41, 0x56, 0x45]"

definition data_chunk :: "byte list \<Rightarrow> byte list" where
  "data_chunk d = [0x64, 0x61, 0x74, 0x61] @ le_bytes 4 (int (length d)) @ d"

definition fmt_chunk :: "wavetable \<Rightarrow> byte list" where
  "fmt_chunk r =
     [0x66, 0x6D, 0x74, 0x20] @ [0x10, 0x00, 0x00, 0x00]
       @ le_bytes 2 (fmt_audio_format r) @ le_bytes 2 (fmt_channels r)
       @ le_bytes 4 (fmt_sample_rate r) @ le_bytes 4 (fmt_bytes_p_sec r)
       @ le_bytes 2 (fmt_bytes_p_block r) @ le_bytes 2 (fmt_bits_p_sample r)"

definition clm_chunk :: "wavetable \<Rightarrow> byte list" where
  "clm_chunk r =
     [0x63, 0x6C, 0x6D, 0x20] @ le_bytes 4 (int (length (wav_clm_data r))) @ wav_clm_data r"

text \<open>
  The six fmt fields within the widths \<^verbatim>\<open>wav_write\<close> gives them: two bytes each, four
  for the sample rate and the bytes per second.
\<close>

definition fmt_fields_fit :: "wavetable \<Rightarrow> bool" where
  "fmt_fields_fit r =
     (0 \<le> fmt_audio_format r \<and> fmt_audio_format r < 65536
      \<and> 0 \<le> fmt_channels r \<and> fmt_channels r < 65536
      \<and> 0 \<le> fmt_sample_rate r \<and> fmt_sample_rate r < 4294967296
      \<and> 0 \<le> fmt_bytes_p_sec r \<and> fmt_bytes_p_sec r < 4294967296
      \<and> 0 \<le> fmt_bytes_p_block r \<and> fmt_bytes_p_block r < 65536
      \<and> 0 \<le> fmt_bits_p_sample r \<and> fmt_bits_p_sample r < 65536)"

section \<open>Cycle transforms\<close>

text \<open>
  \<^verbatim>\<open>slicer\<close>: \<^verbatim>\<open>len(self.data_samples)\<close> raises \<^verbatim>\<open>TypeError\<close> on \<^verbatim>\<open>None\<close>,
  and \<^verbatim>\<open>range\<close> raises \<^verbatim>\<open>ValueError\<close> when the step
  \<^verbatim>\<open>wave_size * fmt_bytes_p_block\<close> is zero.
\<close>

definition slicer :: "wavetable \<Rightarrow> py_error + byte list list" where
  "slicer r =
     (case data_samples r of
        None \<Rightarrow> Inl TypeError
      | Some d \<Rightarrow>
          (let step = wave_size r * fmt_bytes_p_block r
           in if step = 0 then Inl ValueError
              else Inr (map (\<lambda>i. py_slice d i (i + step)) (py_range 0 (int (length d)) step))))"

text \<open>
  The loop of \<^verbatim>\<open>deduplicator\<close>: \<^verbatim>\<open>cycles_dedupe\<close> is the accumulator, a cycle is
  appended when it differs from \<^verbatim>\<open>cycles_dedupe[-1]\<close>. The accumulator starts with
  one element and only grows, so \<open>last\<close> is always taken of a non-empty list.
\<close>

fun dedupe_loop :: "'a list \<Rightarrow> 'a list \<Rightarrow> 'a list" where
  "dedupe_loop [] cycles_dedupe = cycles_dedupe"
| "dedupe_loop (cycle # rest) cycles_dedupe =
     dedupe_loop rest (if cycle \<noteq> last cycles_dedupe then cycles_dedupe @ [cycle] else cycles_dedupe)"

text \<open>
  \<^verbatim>\<open>deduplicator\<close> returns the record as it leaves it and the method's result:
  \<open>Inr True\<close> for \<^verbatim>\<open>return True\<close> (no duplicates), \<open>Inr False\<close> for the implicit
  \<^verbatim>\<open>None\<close>, \<open>Inl\<close> for an exception. \<^verbatim>\<open>cycles_all[0]\<close> raises
  \<^verbatim>\<open>IndexError\<close> on an empty list.
\<close>

definition deduplicator :: "wavetable \<Rightarrow> wavetable \<times> (py_error + bool)" where
  "deduplicator r =
     (case slicer r of
        Inl e \<Rightarrow> (r, Inl e)
      | Inr cycles_all \<Rightarrow>
          (case cycles_all of
             [] \<Rightarrow> (r, Inl IndexError)
           | first # rest \<Rightarrow>
               (let cycles_dedupe = dedupe_loop rest [first]
                in if length cycles_all = length cycles_dedupe then (r, Inr True)
                   else (r\<lparr>data_samples := Some (concat cycles_dedupe),
                           wave_interp := 0,
                           wave_count := Some (int (length cycles_dedupe))\<rparr>, Inr False))))"

text \<open>
  The deduplication rule in the specification's words: the first slice is kept, and each
  later slice is kept exactly when it differs from the most recently kept one.
\<close>

fun keep_after :: "'a \<Rightarrow> 'a list \<Rightarrow> 'a list" where
  "keep_after kept [] = []"
| "keep_after kept (c # cs) = (if c \<noteq> kept then c # keep_after c cs else keep_after kept cs)"

definition kept_slices_spec :: "'a list \<Rightarrow> 'a list" where
  "kept_slices_spec cs = (case cs of [] \<Rightarrow> [] | c # rest \<Rightarrow> c # keep_after c rest)"

section \<open>Example records\<close>

text \<open>Ten bytes of mono 16-bit data cut into cycles of two samples (four bytes).\<close>

definition sliced_example :: wavetable where
  "sliced_example = wavetable_init\<lparr>data_samples := Some [1, 2, 3, 4, 5, 6, 7, 8, 9, 10], wave_size := 2\<rparr>"

text \<open>
  Three identical cycles of eight bytes followed by a different one, with
  \<^verbatim>\<open>wave_size = 4\<close> and \<^verbatim>\<open>fmt_bytes_p_block = 2\<close>.
\<close>

definition dedupe_example :: wavetable where
  "dedupe_example =
     wavetable_init\<lparr>data_samples := Some ([1, 2, 3, 4, 5, 6, 7, 8] @ [1, 2, 3, 4, 5, 6, 7, 8]
                        @ [1, 2, 3, 4, 5, 6, 7, 8] @ [9, 10, 11, 12, 13, 14, 15, 16]),
                    wave_size := 4, wave_interp := 1, wave_count := Some 4\<rparr>"

text \<open>A record whose \<^verbatim>\<open>wave_size\<close> is negative, as \<^verbatim>\<open>int(b'-002')\<close> reads it from a clm chunk.\<close>

definition negative_size_example :: wavetable where
  "negative_size_example = wavetable_init\<lparr>data_samples := Some [1, 2, 3, 4], wave_size := - 2\<rparr>"


text \<open>
  The first ten bytes of a WT file: the tag \<^verbatim>\<open>vawt\<close>, a wave size of 2048 and a wave
  count of 1.
\<close>

definition wt_header_example :: "byte list" where
  "wt_header_example = [0x76, 0x61, 0x77, 0x74, 0x00, 0x08, 0x00, 0x00, 0x01, 0x00]"

text \<open>A mono record of two cycles that \<^verbatim>\<open>wt_write\<close> accepts.\<close>

definition wt_example :: wavetable where
  "wt_example = wavetable_init\<lparr>data_samples := Some [1, 2, 3, 4, 5, 6, 7, 8], wave_size := 2,
                               wave_count := Some 2\<rparr>"

text \<open>A record whose \<^verbatim>\<open>wave_size\<close> is the power of two \<open>2 ^ 32\<close>.\<close>

definition wide_size_example :: wavetable where
  "wide_size_example = wavetable_init\<lparr>data_samples := Some [1, 2, 3, 4], wave_size := 2 ^ 32,
                                      wave_count := Some 0\<rparr>"

text \<open>
  A mono 16-bit record of 65536 cycles of one sample each: its \<^verbatim>\<open>wave_count\<close> is the
  floor of \<open>131072 / (1 * 2)\<close>.
\<close>

definition long_table_example :: wavetable where
  "long_table_example = wavetable_init\<lparr>data_samples := Some (replicate 131072 0), wave_size := 1,
                                       wave_count := Some 65536\<rparr>"

text \<open>Two streams of a RIFF header and two data chunks; in the second the first payload is empty.\<close>

definition two_data_example :: "byte list" where
  "two_data_example = riff_header @ data_chunk [7, 6] @ data_chunk [9, 8]"

definition empty_data_example :: "byte list" where
  "empty_data_example = riff_header @ data_chunk [] @ data_chunk [9, 8]"

text \<open>
  Records for the WAVE round trip: the defaults with four bytes of samples, a wave size
  of three digits with a two-byte vendor, and a sample rate too wide for its field; and
  the files \<^verbatim>\<open>wav_write\<close> makes of the first two.
\<close>

definition wav_example :: wavetable where
  "wav_example = wavetable_init\<lparr>data_samples := Some [1, 2, 3, 4]\<rparr>"

definition short_size_example :: wavetable where
  "short_size_example = wavetable_init\<lparr>data_samples := Some [1, 2, 3, 4], wave_size := 256,
                                        wave_interp := 1, wave_vendor := [0x41, 0x42]\<rparr>"

definition short_size_file :: "byte list" where
  "short_size_file =
     [0x52, 0x49, 0x46, 0x46] @ le_bytes 4 66 @ [0x57, 0x41, 0x56, 0x45]
       @ fmt_chunk short_size_example @ clm_chunk short_size_example @ data_chunk [1, 2, 3, 4]"

definition wav_example_file :: "byte list" where
  "wav_example_file =
     [0x52, 0x49, 0x46, 0x46] @ le_bytes 4 92 @ [0x57, 0x41, 0x56, 0x45]
       @ fmt_chunk wav_example @ clm_chunk wav_example @ data_chunk [1, 2, 3, 4]"

definition wide_rate_example :: wavetable where
  "wide_rate_example = wavetable_init\<lparr>data_samples := Some [1, 2, 3, 4],
                                       fmt_sample_rate := 4294967296\<rparr>"

section \<open>Properties of the Python values\<close>

subsection \<open>True division of integers\<close>

lemma bit_length_upper: "n < 2 ^ bit_length n"
proof (induction n rule: bit_length.induct)
  case (1 n)
  show ?case
  proof (cases "n = 0")
    case True
    then show ?thesis by (simp add: bit_length.simps)
  next
    case False
    with 1 have "n div 2 < 2 ^ bit_length (n div 2)" by simp
    then have "n < 2 * 2 ^ bit_length (n div 2)" by linarith
    with False show ?thesis by (subst bit_length.simps) simp
  qed
qed

lemma bit_length_lower: "0 < n \<Longrightarrow> 2 ^ (bit_length n - 1) \<le> n"
proof (induction n rule: bit_length.induct)
  case (1 n)
  show ?case
  proof (cases "n div 2 = 0")
    case True
    with 1(2) have "n = 1" by linarith
    then show ?thesis by (simp add: bit_length.simps [of "Suc 0"] bit_length.simps [of 0])
  next
    case False
    with 1 have ih: "2 ^ (bit_length (n div 2) - 1) \<le> n div 2" by simp
    have pos: "0 < bit_length (n div 2)"
      using False by (subst bit_length.simps) simp
    have "bit_length n = Suc (bit_length (n div 2))"
      using 1(2) by (subst bit_length.simps) simp
    then have "(2::nat) ^ (bit_length n - 1) = 2 * 2 ^ (bit_length (n div 2) - 1)"
      using pos by (cases "bit_length (n div 2)") simp_all
    also have "\<dots> \<le> 2 * (n div 2)" using ih by simp
    also have "\<dots> \<le> n" by simp
    finally show ?thesis .
  qed
qed

lemma bit_length_le: "n < 2 ^ k \<Longrightarrow> bit_length n \<le> k"
proof (rule ccontr)
  assume lt: "n < 2 ^ k" and "\<not> bit_length n \<le> k"
  then have k: "k \<le> bit_length n - 1" and pos: "0 < n"
    by (auto simp: bit_length.simps [of 0] intro: ccontr)
  have "(2::nat) ^ k \<le> 2 ^ (bit_length n - 1)"
    using k by (rule power_increasing) simp
  also have "\<dots> \<le> n" using pos by (rule bit_length_lower)
  finally show False using lt by simp
qed

lemma bit_length_pos: "0 < n \<Longrightarrow> 0 < bit_length n"
  by (subst bit_length.simps) simp

text \<open>
  The exponent is the difference of the bit lengths or one less, and two to its power is
  at most the quotient.
\<close>

lemma float_exponent_range:
  "int (bit_length a) - int (bit_length b) - 1 \<le> float_exponent a b"
  "float_exponent a b \<le> int (bit_length a) - int (bit_length b)"
  by (simp_all add: float_exponent_def Let_def)

lemma float_exponent_lower:
  assumes "0 < a" and "0 < b"
  shows "if 0 \<le> float_exponent a b then b * 2 ^ nat (float_exponent a b) \<le> a
         else b \<le> a * 2 ^ nat (- float_exponent a b)"
proof -
  define d where "d = int (bit_length a) - int (bit_length b)"
  let ?t = "if 0 \<le> d then b * 2 ^ nat d \<le> a else b \<le> a * 2 ^ nat (- d)"
  show ?thesis
  proof (cases ?t)
    case True
    then have "float_exponent a b = d"
      by (simp add: float_exponent_def d_def [symmetric] Let_def)
    with True show ?thesis by simp
  next
    case False
    then have e: "float_exponent a b = d - 1"
      by (simp add: float_exponent_def d_def [symmetric] Let_def)
    have la: "2 ^ (bit_length a - 1) \<le> a" using assms(1) by (rule bit_length_lower)
    have ub: "b < 2 ^ bit_length b" by (rule bit_length_upper)
    have pa: "0 < bit_length a" and pb: "0 < bit_length b"
      using assms by (simp_all add: bit_length_pos)
    show ?thesis
    proof (cases "0 \<le> d - 1")
      case True
      then have n: "nat (d - 1) + bit_length b = bit_length a - 1"
        using pa pb by (simp add: d_def nat_diff_distrib)
      have "b * 2 ^ nat (d - 1) \<le> 2 ^ bit_length b * 2 ^ nat (d - 1)"
        using ub by simp
      also have "\<dots> = 2 ^ (bit_length a - 1)"
        using n by (simp add: power_add [symmetric] add.commute)
      also have "\<dots> \<le> a" by (rule la)
      finally show ?thesis using True e by simp
    next
      case False
      then have n: "bit_length b = nat (- (d - 1)) + (bit_length a - 1)"
        using pa pb by (simp add: d_def)
      have "b \<le> 2 ^ bit_length b" using ub by simp
      also have "\<dots> = 2 ^ nat (- (d - 1)) * 2 ^ (bit_length a - 1)"
        by (subst n) (simp add: power_add)
      also have "\<dots> \<le> 2 ^ nat (- (d - 1)) * a"
        using la by simp
      finally show ?thesis using False e by (simp add: mult.commute)
    qed
  qed
qed

text \<open>Rounding to nearest stays within one half of the quotient.\<close>

lemma round_half_even_bounds:
  assumes "0 < d"
  shows "n div d \<le> round_half_even n d" and "2 * (round_half_even n d * d) \<le> 2 * n + d"
proof -
  show "n div d \<le> round_half_even n d"
    by (simp add: round_half_even_def Let_def)
  have n: "(n div d) * d + n mod d = n" by simp
  have r: "0 \<le> n mod d" "n mod d < d" using assms by simp_all
  show "2 * (round_half_even n d * d) \<le> 2 * n + d"
  proof (cases "2 * (n mod d) < d")
    case True
    then have eq: "round_half_even n d = n div d" by (simp add: round_half_even_def Let_def)
    have "2 * ((n div d) * d) \<le> 2 * n + d" using n r by linarith
    then show ?thesis by (simp only: eq)
  next
    case False
    then have "round_half_even n d \<le> n div d + 1" by (simp add: round_half_even_def Let_def)
    then have "round_half_even n d * d \<le> (n div d + 1) * d"
      using assms by simp
    also have "\<dots> = (n div d) * d + d" by (simp add: algebra_simps)
    finally show ?thesis using n False by linarith
  qed
qed

text \<open>For positive operands the signs drop out of \<^verbatim>\<open>a / b\<close>.\<close>

lemma py_truediv_pos:
  assumes "0 < a" and "0 < b"
  shows "py_truediv a b =
           (let e = float_exponent (nat a) (nat b);
                p = max e (- 1022) - 52;
                m = (if 0 \<le> p then round_half_even a (b * 2 ^ nat p)
                     else round_half_even (a * 2 ^ nat (- p)) b)
            in if 1024 \<le> e \<or> (e = 1023 \<and> m = 2 ^ 53) then Inl OverflowError
               else Inr (m, p))"
proof -
  have "nat \<bar>a\<bar> = nat a" "nat \<bar>b\<bar> = nat b" "int (nat a) = a" "int (nat b) = b"
    "sgn a * sgn b = 1" "(b = 0) = False" "(a = 0) = False"
    using assms by simp_all
  then show ?thesis
    unfolding py_truediv_def Let_def by (simp only: if_False mult_1)
qed

text \<open>
  Below \<open>2 ^ 53\<close> the rounding of the quotient never reaches the next integer:
  \<^verbatim>\<open>int(a / b)\<close> is the floor division.
\<close>

lemma py_int_truediv_exact:
  assumes "0 \<le> a" and "a < 2 ^ 53" and "0 < b" and "b < 2 ^ 53"
  shows "py_int_truediv a b = Inr (a div b)"
proof (cases "a = 0")
  case True
  then show ?thesis
    using assms by (simp add: py_int_truediv_def py_truediv_def py_int_of_float_def)
next
  case False
  define n where "n = nat \<bar>a\<bar>"
  define d where "d = nat \<bar>b\<bar>"
  define e where "e = float_exponent n d"
  define k where "k = nat (52 - e)"
  define m where "m = round_half_even (a * 2 ^ k) b"
  define q where "q = a div b"
  have n: "int n = a" "0 < n" "n < 2 ^ 53" and d: "int d = b" "0 < d" "d < 2 ^ 53"
    using assms False by (simp_all add: n_def d_def nat_less_iff)
  have "bit_length n \<le> 53" "bit_length d \<le> 53" "0 < bit_length n" "0 < bit_length d"
    using n d by (simp_all add: bit_length_le bit_length_pos)
  then have e_range: "- 53 \<le> e" "e \<le> 52"
    using float_exponent_range [of n d] by (simp_all add: e_def)
  then have k: "int k = 52 - e" by (simp add: k_def)
  have b_small: "b < 2 ^ (k + 1)"
  proof (cases "0 \<le> e")
    case True
    then have "d * 2 ^ nat e \<le> n"
      using float_exponent_lower [OF n(2) d(2)] by (simp add: e_def)
    then have A: "d * 2 ^ nat e < 2 ^ 53" using n(3) by (rule le_less_trans)
    have "k + 1 + nat e = 53" using k True by linarith
    then have B: "(2::nat) ^ 53 = 2 ^ (k + 1) * 2 ^ nat e"
      by (simp only: power_add [symmetric])
    have "d * 2 ^ nat e < 2 ^ (k + 1) * 2 ^ nat e"
      using A unfolding B .
    then have "0 < (2::nat) ^ nat e \<and> d < 2 ^ (k + 1)"
      by (simp only: mult_less_cancel2)
    then have "d < 2 ^ (k + 1)" by (rule conjunct2)
    then have "int d < int (2 ^ (k + 1))" by (simp only: of_nat_less_iff)
    then show ?thesis using d(1) by simp
  next
    case False
    then have "53 \<le> k + 1" using k by linarith
    then have "(2::int) ^ 53 \<le> 2 ^ (k + 1)" by (rule power_increasing) simp
    then show ?thesis using assms(4) by simp
  qed
  have a_eq: "a = q * b + a mod b" by (simp add: q_def)
  have a_mod: "0 \<le> a mod b" "a mod b < b" using assms by simp_all
  have q_nonneg: "0 \<le> q" using assms by (simp add: q_def pos_imp_zdiv_nonneg_iff)
  have lower: "q * 2 ^ k \<le> m"
  proof -
    have "q * b \<le> a" using a_eq a_mod by linarith
    then have "q * b * 2 ^ k \<le> a * 2 ^ k" by simp
    then have "q * 2 ^ k * b \<le> a * 2 ^ k" by (simp add: mult.assoc mult.commute mult.left_commute)
    then have "(q * 2 ^ k * b) div b \<le> (a * 2 ^ k) div b"
      using assms(3) by (rule zdiv_mono1)
    then have "q * 2 ^ k \<le> (a * 2 ^ k) div b"
      using assms(3) by simp
    also have "\<dots> \<le> m"
      using round_half_even_bounds(1) [OF assms(3)] by (simp add: m_def)
    finally show ?thesis .
  qed
  have upper: "m < (q + 1) * 2 ^ k"
  proof -
    have "2 * (m * b) \<le> 2 * (a * 2 ^ k) + b"
      using round_half_even_bounds(2) [OF assms(3)] by (simp add: m_def)
    moreover have "a + 1 \<le> (q + 1) * b" using a_eq a_mod by (simp add: algebra_simps)
    then have "(a + 1) * 2 ^ k \<le> (q + 1) * b * 2 ^ k" by simp
    then have "2 * (a * 2 ^ k) + 2 ^ (k + 1) \<le> 2 * ((q + 1) * 2 ^ k * b)"
      by (simp add: algebra_simps)
    ultimately have "2 * (m * b) < 2 * ((q + 1) * 2 ^ k * b)"
      using b_small by linarith
    then have "m * b < (q + 1) * 2 ^ k * b" by simp
    then show ?thesis using assms(3) by simp
  qed
  have "0 \<le> q * 2 ^ k" using q_nonneg by simp
  with lower have m_nonneg: "0 \<le> m" by linarith
  have m_div: "m div 2 ^ k = q"
  proof (rule int_div_pos_eq [where r = "m - q * 2 ^ k"])
    show "m = 2 ^ k * q + (m - q * 2 ^ k)" by simp
    show "0 \<le> m - q * 2 ^ k" using lower by simp
    show "m - q * 2 ^ k < 2 ^ k" using upper by (simp add: algebra_simps)
  qed
  have fe: "float_exponent (nat a) (nat b) = e"
    using assms by (simp add: e_def n_def d_def)
  have a_pos: "0 < a" using assms False by simp
  have "py_truediv a b = Inr (m, - int k)"
  proof (cases "e = 52")
    case True
    then have "k = 0" using k by simp
    with True show ?thesis
      by (simp add: py_truediv_pos [OF a_pos assms(3)] fe m_def)
  next
    case False
    then have "e < 52" using e_range by simp
    moreover have "nat (52 - e) = k" by (simp add: k_def)
    moreover have "max e (- 1022) = e" using e_range by simp
    ultimately show ?thesis
      using k by (simp add: py_truediv_pos [OF a_pos assms(3)] fe m_def)
  qed
  moreover have "py_int_of_float (m, - int k) = m div 2 ^ k"
    using m_nonneg by (cases "m = 0") (simp_all add: py_int_of_float_def sgn_if)
  ultimately show ?thesis
    using m_div by (simp add: py_int_truediv_def q_def)
qed

subsection \<open>Integers and bytes\<close>

lemma length_le_bytes [simp]: "length (le_bytes n x) = n"
  by (induction n arbitrary: x) simp_all

lemma from_bytes_le_bytes: "0 \<le> x \<Longrightarrow> x < 256 ^ n \<Longrightarrow> from_bytes (le_bytes n x) = x"
proof (induction n arbitrary: x)
  case 0
  then show ?case by simp
next
  case (Suc n)
  have "0 \<le> x div 256"
    using Suc.prems by (simp add: pos_imp_zdiv_nonneg_iff)
  moreover from Suc.prems have "x < 256 * 256 ^ n" by simp
  then have "x div 256 < 256 ^ n" by linarith
  ultimately have "from_bytes (le_bytes n (x div 256)) = x div 256"
    by (rule Suc.IH)
  moreover have "uint (word_of_int x :: byte) = x mod 256"
    by (simp add: uint_word_of_int take_bit_eq_mod)
  ultimately show ?case by simp
qed

lemma from_bytes_bounds: "0 \<le> from_bytes bs \<and> from_bytes bs < 256 ^ length bs"
proof (induction bs)
  case Nil
  then show ?case by simp
next
  case (Cons b bs)
  have "0 \<le> uint b" "uint b < 256"
    using uint_bounded [of b] by simp_all
  with Cons show ?case by simp
qed

lemma to_bytes_ok: "0 \<le> x \<Longrightarrow> x < 256 ^ n \<Longrightarrow> to_bytes x n = Inr (le_bytes n x)"
  by (simp add: to_bytes_def)

lemma le_bytes_numeral:
  "le_bytes (numeral k) x = word_of_int x # le_bytes (pred_numeral k) (x div 256)"
  by (simp add: numeral_eq_Suc)

subsection \<open>The power-of-two test\<close>

text \<open>
  \<^verbatim>\<open>x & (x - 1) != 0 or x == 0\<close> holds exactly when \<open>x\<close> is not a power of two;
  Python's \<^verbatim>\<open>&\<close> on negative integers is the two's complement conjunction, as
  \<open>AND\<close> on \<open>int\<close> is.
\<close>

lemma and_pred_power_of_two: "(2::int) ^ k AND (2 ^ k - 1) = 0"
proof -
  have "(2::int) ^ k AND mask k = 0"
    by (rule bit_eqI) (simp add: bit_and_iff bit_exp_iff bit_mask_iff)
  then show ?thesis by (simp add: mask_eq_exp_minus_1)
qed

lemma and_pred_zero_imp_power:
  "x \<noteq> 0 \<Longrightarrow> x AND (x - 1) = 0 \<Longrightarrow> \<exists>k. x = (2::int) ^ k"
proof (induction x rule: int_bit_induct)
  case zero
  then show ?case by simp
next
  case minus
  then show ?case by simp
next
  case (even x)
  have "(x * 2 - 1) div 2 = x - 1" by linarith
  then have "x * 2 AND (x * 2 - 1) = 2 * (x AND (x - 1))"
    by (subst and_int_rec) simp
  with even.prems have "x AND (x - 1) = 0" by simp
  with even obtain k where "x = 2 ^ k" by auto
  then have "x * 2 = 2 ^ Suc k" by simp
  then show ?case by blast
next
  case (odd x)
  have "(1 + x * 2) AND (1 + x * 2 - 1) = 2 * x"
    by (subst and_int_rec) simp
  with odd.prems have "x = 0" by simp
  then have "1 + x * 2 = 2 ^ 0" by simp
  then show ?case by blast
qed

lemma power_of_two_test:
  "(x AND (x - 1) \<noteq> 0 \<or> x = 0) = (\<not> (\<exists>k. x = (2::int) ^ k))"
  using and_pred_zero_imp_power [of x] and_pred_power_of_two by auto

subsection \<open>Decimal digits\<close>

lemma digit_cases:
  fixes k :: nat
  assumes "k < 10"
  shows "k = 0 \<or> k = 1 \<or> k = 2 \<or> k = 3 \<or> k = 4 \<or> k = 5 \<or> k = 6 \<or> k = 7 \<or> k = 8 \<or> k = 9"
  using assms by presburger

lemma digit_byte:
  assumes "k < 10"
  shows "is_digit (0x30 + of_nat k)" and "digit_value (0x30 + of_nat k) = int k"
    and "\<not> is_space (0x30 + of_nat k)" and "(0x30 + of_nat k :: byte) \<noteq> 0x2D"
    and "(0x30 + of_nat k :: byte) \<noteq> 0x2B"
  using digit_cases [OF assms]
  by (auto simp: is_digit_def digit_value_def is_space_def)

lemma decimal_one_digit: "n < 10 \<Longrightarrow> decimal n = [0x30 + of_nat n]"
  by (subst decimal.simps) simp

lemma decimal_four_digits:
  assumes "1000 \<le> n" and "n \<le> 9999"
  shows "decimal n = [0x30 + of_nat (n div 1000), 0x30 + of_nat (n div 100 mod 10),
                      0x30 + of_nat (n div 10 mod 10), 0x30 + of_nat (n mod 10)]"
proof -
  have big: "\<not> n < 10" "\<not> n div 10 < 10" "\<not> n div 100 < 10" and small: "n div 1000 < 10"
    using assms by linarith+
  have "decimal (n div 1000) = [0x30 + of_nat (n div 1000)]"
    using small by (rule decimal_one_digit)
  moreover have "decimal (n div 100) = decimal (n div 1000) @ [0x30 + of_nat (n div 100 mod 10)]"
    using big(3) by (subst decimal.simps) (simp add: div_mult2_eq [symmetric])
  moreover have "decimal (n div 10) = decimal (n div 100) @ [0x30 + of_nat (n div 10 mod 10)]"
    using big(2) by (subst decimal.simps) (simp add: div_mult2_eq [symmetric])
  moreover have "decimal n = decimal (n div 10) @ [0x30 + of_nat (n mod 10)]"
    using big(1) by (subst decimal.simps) simp
  ultimately show ?thesis by simp
qed

lemma digits_sum:
  fixes n :: nat
  shows "1000 * (n div 1000) + 100 * (n div 100 mod 10) + 10 * (n div 10 mod 10) + n mod 10 = n"
proof -
  have h1: "n div 10 div 10 = n div 100" and h2: "n div 100 div 10 = n div 1000"
    by (simp_all add: div_mult2_eq [symmetric])
  have "n = 10 * (n div 10) + n mod 10"
    by simp
  moreover have "n div 10 = 10 * (n div 10 div 10) + n div 10 mod 10"
    by simp
  moreover have "n div 100 = 10 * (n div 100 div 10) + n div 100 mod 10"
    by simp
  ultimately show ?thesis
    unfolding h1 h2 by linarith
qed

lemma py_int_four_digits:
  assumes "a < 10" and "b < 10" and "c < 10" and "d < 10"
  shows "py_int [0x30 + of_nat a, 0x30 + of_nat b, 0x30 + of_nat c, 0x30 + of_nat d]
           = Inr (int (1000 * a + 100 * b + 10 * c + d))"
  using assms by (simp add: py_int_def digit_byte)

lemma py_int_one_digit:
  assumes "a < 10"
  shows "py_int [0x30 + of_nat a] = Inr (int a)"
  using assms by (simp add: py_int_def digit_byte)

section \<open>Properties of the recalculation\<close>

lemma calc_wave_count_exact:
  assumes "data_samples r = Some d" and "0 < wave_size r * fmt_bytes_p_block r"
    and "int (length d) < 2 ^ 53" and "wave_size r * fmt_bytes_p_block r < 2 ^ 53"
  shows "calc_wave_count r = Inr (int (length d) div (wave_size r * fmt_bytes_p_block r))"
  using assms by (simp add: calc_wave_count_def py_int_truediv_exact del: mult_eq_0_iff)

lemma floor_quotient: "\<lfloor>real n / real_of_int b\<rfloor> = int n div b"
  using floor_divide_of_int_eq [of "int n" b, where ?'a = real] by simp






section \<open>Properties of the WT codec\<close>

subsection \<open>Flags\<close>

lemma flag_bits [simp]:
  "(1::int) AND 8 = 0" "(2::int) AND 8 = 0" "(3::int) AND 8 = 0"
  "(1::int) AND 4 = 0" "(2::int) AND 4 = 0" "(3::int) AND 4 = 0"
  by simp_all

text \<open>
  C10: \<^verbatim>\<open>wt_set_flag\<close> sets the full-range bit (bit 3) exactly when the record has 16
  bits per sample and \<^verbatim>\<open>is_full_range\<close> is true; a record with another bit depth has
  bits 2 and 3 clear whatever the arguments are.
\<close>

theorem wt_set_flag_full_range:
  "is_full_range (wt_set_flag r sample looped full_range) =
     (fmt_bits_p_sample r = 16 \<and> full_range)
   \<and> (fmt_bits_p_sample r \<noteq> 16 \<longrightarrow>
        \<not> is_int16 (wt_set_flag r sample looped full_range)
      \<and> \<not> is_full_range (wt_set_flag r sample looped full_range))"
  by (cases sample; cases looped; cases full_range)
    (simp_all add: wt_set_flag_def is_full_range_def is_int16_def)

theorem wt_set_flag_full_range_witness:
  "is_full_range (wt_set_flag (wavetable_init\<lparr>fmt_bits_p_sample := 32\<rparr>) False False True) = False
   \<and> \<not> is_int16 (wt_set_flag (wavetable_init\<lparr>fmt_bits_p_sample := 32\<rparr>) False False True)
   \<and> is_full_range (wt_set_flag wavetable_init False False True)"
  using wt_set_flag_full_range [of "wavetable_init\<lparr>fmt_bits_p_sample := 32\<rparr>" False False True]
    wt_set_flag_full_range [of wavetable_init False False True]
  by (simp add: wavetable_init_def)

subsection \<open>Decoding\<close>

lemma truediv_bits:
  "py_int_truediv 16 8 = Inr 2" "py_int_truediv 32 8 = Inr 4"
  using py_int_truediv_exact [of 16 8] py_int_truediv_exact [of 32 8] by simp_all

text \<open>
  The recalculation at the end of \<^verbatim>\<open>wt_import\<close>, for the two bit depths that
  \<^verbatim>\<open>wt_parse_flags\<close> sets.
\<close>

lemma set_data_wt_import:
  assumes "fmt_bits_p_sample r = 16 \<or> fmt_bits_p_sample r = 32"
  shows "set_data r (no_args\<lparr>arg_recalc := True, arg_fmt_audio_format := Some 1,
                              arg_fmt_channels := Some 1, arg_fmt_sample_rate := Some 88200\<rparr>)
           = (let r = r\<lparr>fmt_audio_format := 1, fmt_channels := 1, fmt_sample_rate := 88200,
                          fmt_bytes_p_block := fmt_bits_p_sample r div 8,
                          fmt_bytes_p_sec := 88200 * (fmt_bits_p_sample r div 8)\<rparr>
              in case calc_wave_count r of
                   Inl e \<Rightarrow> (r, Inl e)
                 | Inr c \<Rightarrow> (r\<lparr>wave_count := Some c\<rparr>, Inr ()))"
  using assms
  by (auto simp: set_data_def set_data_fields_def recalculates_def truthy_def no_args_def
      calc_fmt_bytes_p_block_def calc_fmt_bytes_p_sec_def truediv_bits Let_def
      split: sum.splits)

lemma wt_import_layout:
  assumes "length hdr = 10" and "length fl = 2"
  shows "wt_import r (hdr @ fl @ samples)
           = (case wt_parse_flags (r\<lparr>wave_size := from_bytes (take 4 (drop 4 hdr)),
                                       wave_count := Some (from_bytes (drop 8 hdr))\<rparr>)
                                  (from_bytes fl) of
                (r, stop_importing) \<Rightarrow>
                  if stop_importing then (r, Inr True)
                  else (case set_data (r\<lparr>data_samples := Some samples\<rparr>)
                               (no_args\<lparr>arg_recalc := True, arg_fmt_audio_format := Some 1,
                                         arg_fmt_channels := Some 1,
                                         arg_fmt_sample_rate := Some 88200\<rparr>) of
                          (r, Inl e) \<Rightarrow> (r, Inl e)
                        | (r, Inr u) \<Rightarrow> (r, Inr False)))"
proof -
  let ?f = "hdr @ fl @ samples"
  have r1: "file_read ?f 4 4 = (take 4 (drop 4 hdr), 8)"
    using assms by (simp add: file_read_def)
  have r2: "file_read ?f 8 2 = (drop 8 hdr, 10)"
    using assms by (simp add: file_read_def)
  have r3: "file_read ?f 10 2 = (fl, 12)"
    using assms by (simp add: file_read_def)
  show ?thesis
    by (simp add: wt_import_def r1 r2 r3 assms Let_def split: prod.splits)
qed

lemma wt_import_skipped:
  assumes "length hdr = 10" and "length fl = 2"
    and "is_sample (from_bytes fl) \<or> is_looped (from_bytes fl)"
  shows "wt_import r (hdr @ fl @ samples)
           = (r\<lparr>wave_size := from_bytes (take 4 (drop 4 hdr)),
                 wave_count := Some (from_bytes (drop 8 hdr))\<rparr>, Inr True)"
  using assms(3) by (auto simp: wt_import_layout [OF assms(1,2)] wt_parse_flags_def)

lemma wt_import_decoded:
  assumes "length hdr = 10" and "length fl = 2"
    and "\<not> is_sample (from_bytes fl)" and "\<not> is_looped (from_bytes fl)"
    and "b = (if is_int16 (from_bytes fl) then 16 else 32)"
    and "r3 = r\<lparr>wave_size := from_bytes (take 4 (drop 4 hdr)),
                  wave_count := Some (from_bytes (drop 8 hdr)),
                  fmt_bits_p_sample := b,
                  data_samples := Some samples,
                  fmt_audio_format := 1, fmt_channels := 1, fmt_sample_rate := 88200,
                  fmt_bytes_p_block := b div 8,
                  fmt_bytes_p_sec := 88200 * (b div 8)\<rparr>"
  shows "wt_import r (hdr @ fl @ samples)
           = (case calc_wave_count r3 of
                Inl e \<Rightarrow> (r3, Inl e)
              | Inr c \<Rightarrow> (r3\<lparr>wave_count := Some c\<rparr>, Inr False))"
  using assms(3,4)
  by (simp add: wt_import_layout [OF assms(1,2)] wt_parse_flags_def set_data_wt_import Let_def
      assms(5,6) split: sum.splits)

lemma flags_xor_full_range:
  "is_sample (flags XOR 8) = is_sample flags"
  "is_looped (flags XOR 8) = is_looped flags"
  "is_int16 (flags XOR 8) = is_int16 flags"
  by (simp_all add: is_sample_def is_looped_def is_int16_def bit.conj_xor_distrib2)

lemma flags_xor_range:
  fixes flags :: int
  assumes "0 \<le> flags" and "flags < 65536"
  shows "0 \<le> flags XOR 8" and "flags XOR 8 < 65536"
proof -
  show "0 \<le> flags XOR 8" using assms by simp
  have "flags XOR 8 < 2 ^ 16"
    using assms by (intro XOR_upper) simp_all
  then show "flags XOR 8 < 65536" by simp
qed

lemma from_bytes_flags: "0 \<le> flags \<Longrightarrow> flags < 65536 \<Longrightarrow> from_bytes (le_bytes 2 flags) = flags"
  using from_bytes_le_bytes [of flags 2] by simp

text \<open>
  C7: a WT file is ten header bytes, the two bytes of the flags and the samples. For
  every flags value, \<^verbatim>\<open>wt_import\<close> returns \<^verbatim>\<open>True\<close> (the file is skipped) when
  bit 0 or bit 1 is set. Otherwise it does not skip, \<^verbatim>\<open>fmt_bits_p_sample\<close> is 16 when
  bit 2 is set and 32 when it is clear, and \<^verbatim>\<open>fmt_audio_format\<close>, \<^verbatim>\<open>fmt_channels\<close>
  and \<^verbatim>\<open>fmt_sample_rate\<close> are 1, 1 and 88200; the import completes when the wave size
  in the header is not zero. Flipping bit 3 changes nothing in the result.
\<close>

theorem wt_import_flags:
  assumes "length hdr = 10" and "0 \<le> flags" and "flags < 65536"
  shows "(is_sample flags \<or> is_looped flags \<longrightarrow>
            snd (wt_import r (hdr @ le_bytes 2 flags @ samples)) = Inr True)
       \<and> (\<not> is_sample flags \<and> \<not> is_looped flags \<longrightarrow>
            snd (wt_import r (hdr @ le_bytes 2 flags @ samples)) \<noteq> Inr True
          \<and> fmt_bits_p_sample (fst (wt_import r (hdr @ le_bytes 2 flags @ samples)))
              = (if is_int16 flags then 16 else 32)
          \<and> fmt_audio_format (fst (wt_import r (hdr @ le_bytes 2 flags @ samples))) = 1
          \<and> fmt_channels (fst (wt_import r (hdr @ le_bytes 2 flags @ samples))) = 1
          \<and> fmt_sample_rate (fst (wt_import r (hdr @ le_bytes 2 flags @ samples))) = 88200)
       \<and> (\<not> is_sample flags \<and> \<not> is_looped flags
            \<and> from_bytes (take 4 (drop 4 hdr)) \<noteq> 0 \<and> int (length samples) < 2 ^ 53 \<longrightarrow>
            snd (wt_import r (hdr @ le_bytes 2 flags @ samples)) = Inr False)
       \<and> wt_import r (hdr @ le_bytes 2 (flags XOR 8) @ samples)
           = wt_import r (hdr @ le_bytes 2 flags @ samples)"
proof -
  have fl: "from_bytes (le_bytes 2 flags) = flags"
    using assms by (simp add: from_bytes_flags)
  have fl': "from_bytes (le_bytes 2 (flags XOR 8)) = flags XOR 8"
    using assms flags_xor_range by (simp add: from_bytes_flags)
  have len: "length (le_bytes 2 flags) = 2" "length (le_bytes 2 (flags XOR 8)) = 2"
    by simp_all
  show ?thesis
  proof (cases "is_sample flags \<or> is_looped flags")
    case True
    then show ?thesis
      using wt_import_skipped [OF assms(1) len(1), of r samples]
        wt_import_skipped [OF assms(1) len(2), of r samples]
      by (auto simp: fl fl' flags_xor_full_range)
  next
    case False
    have "0 \<le> from_bytes (take 4 (drop 4 hdr))" "from_bytes (take 4 (drop 4 hdr)) < 256 ^ 4"
      using from_bytes_bounds [of "take 4 (drop 4 hdr)"] assms(1) by simp_all
    then have ok: "from_bytes (take 4 (drop 4 hdr)) \<noteq> 0 \<Longrightarrow> int (length samples) < 2 ^ 53 \<Longrightarrow>
        calc_wave_count (r\<lparr>wave_size := from_bytes (take 4 (drop 4 hdr)),
                        wave_count := Some (from_bytes (drop 8 hdr)),
                        fmt_bits_p_sample := b,
                        data_samples := Some samples,
                        fmt_audio_format := 1, fmt_channels := 1, fmt_sample_rate := 88200,
                        fmt_bytes_p_block := b div 8,
                        fmt_bytes_p_sec := 88200 * (b div 8)\<rparr>)
          = Inr (int (length samples) div (from_bytes (take 4 (drop 4 hdr)) * (b div 8)))"
      if "b = 16 \<or> b = 32" for b
      using that by (intro calc_wave_count_exact [THEN trans]) auto
    from False show ?thesis
      using wt_import_decoded [OF assms(1) len(1) _ _ refl refl, of r samples]
        wt_import_decoded [OF assms(1) len(2) _ _ refl refl, of r samples] ok [of 16] ok [of 32]
      by (simp add: fl fl' flags_xor_full_range split: sum.splits)
  qed
qed

theorem wt_import_flags_witness:
  "snd (wt_import wavetable_init (wt_header_example @ [0x05, 0x00] @ [1, 2, 3, 4])) = Inr True
   \<and> snd (wt_import wavetable_init (wt_header_example @ [0x04, 0x00] @ [1, 2, 3, 4])) = Inr False
   \<and> fmt_bits_p_sample (fst (wt_import wavetable_init (wt_header_example @ [0x04, 0x00] @ [1, 2, 3, 4]))) = 16
   \<and> fmt_audio_format (fst (wt_import wavetable_init (wt_header_example @ [0x04, 0x00] @ [1, 2, 3, 4]))) = 1
   \<and> fmt_channels (fst (wt_import wavetable_init (wt_header_example @ [0x04, 0x00] @ [1, 2, 3, 4]))) = 1
   \<and> fmt_sample_rate (fst (wt_import wavetable_init (wt_header_example @ [0x04, 0x00] @ [1, 2, 3, 4]))) = 88200
   \<and> wt_import wavetable_init (wt_header_example @ [0x0C, 0x00] @ [1, 2, 3, 4])
       = wt_import wavetable_init (wt_header_example @ [0x04, 0x00] @ [1, 2, 3, 4])"
  using wt_import_flags [of wt_header_example 5 wavetable_init "[1, 2, 3, 4]"]
    wt_import_flags [of wt_header_example 4 wavetable_init "[1, 2, 3, 4]"]
  by (simp add: wt_header_example_def is_sample_def is_looped_def is_int16_def le_bytes_numeral)

subsection \<open>Encoding\<close>

lemma wt_set_flag_range:
  "0 \<le> wt_set_flag r sample looped full_range" "wt_set_flag r sample looped full_range < 16"
  by (cases sample; cases looped; cases full_range; simp add: wt_set_flag_def)+

lemma wt_write_written:
  assumes "fmt_channels r = 1" and "\<exists>k. wave_size r = 2 ^ k" and "wave_size r < 2 ^ 32"
    and "wave_count r = Some c" and "0 \<le> c" and "c < 65536" and "data_samples r = Some d"
  shows "wt_write r sample looped full_range
           = Written ([0x76, 0x61, 0x77, 0x74] @ le_bytes 4 (wave_size r) @ le_bytes 2 c
                      @ le_bytes 2 (wt_set_flag r sample looped full_range) @ d)"
proof -
  have test: "\<not> (wave_size r AND (wave_size r - 1) \<noteq> 0 \<or> wave_size r = 0)"
    using assms(2) by (simp only: power_of_two_test) simp
  have "0 \<le> wave_size r" using assms(2) by auto
  then have ws: "to_bytes (wave_size r) 4 = Inr (le_bytes 4 (wave_size r))"
    using assms(3) by (intro to_bytes_ok) simp_all
  have wc: "to_bytes c 2 = Inr (le_bytes 2 c)"
    using assms(5,6) by (intro to_bytes_ok) simp_all
  have fl: "to_bytes (wt_set_flag r sample looped full_range) 2
              = Inr (le_bytes 2 (wt_set_flag r sample looped full_range))"
    using wt_set_flag_range [of r sample looped full_range] by (intro to_bytes_ok) simp_all
  show ?thesis
    using test assms(1,4,7) by (simp add: wt_write_def ws wc fl)
qed

text \<open>
  C6, as the code has it: \<^verbatim>\<open>wt_write\<close> returns without opening the file whenever the
  record is not mono or \<^verbatim>\<open>wave_size\<close> is zero or not a power of two. When the record
  is mono, \<^verbatim>\<open>wave_size\<close> is a power of two below \<open>2 ^ 32\<close>, \<^verbatim>\<open>wave_count\<close> is an
  integer from 0 to 65535 and the samples are present, the file is written: tag, wave
  size, wave count, flags and the samples.
\<close>

theorem wt_write_validation:
  "(fmt_channels r \<noteq> 1 \<or> wave_size r = 0 \<or> \<not> (\<exists>k. wave_size r = 2 ^ k) \<longrightarrow>
      wt_write r sample looped full_range = No_File)
   \<and> (fmt_channels r = 1 \<and> (\<exists>k. wave_size r = 2 ^ k) \<and> wave_size r < 2 ^ 32
      \<and> wave_count r = Some c \<and> 0 \<le> c \<and> c < 65536 \<and> data_samples r = Some d \<longrightarrow>
      wt_write r sample looped full_range
        = Written ([0x76, 0x61, 0x77, 0x74] @ le_bytes 4 (wave_size r) @ le_bytes 2 c
                   @ le_bytes 2 (wt_set_flag r sample looped full_range) @ d))"
proof (rule conjI; rule impI)
  assume "fmt_channels r \<noteq> 1 \<or> wave_size r = 0 \<or> \<not> (\<exists>k. wave_size r = 2 ^ k)"
  then have "fmt_channels r \<noteq> 1 \<or> (wave_size r AND (wave_size r - 1) \<noteq> 0 \<or> wave_size r = 0)"
    by (simp only: power_of_two_test) auto
  then show "wt_write r sample looped full_range = No_File"
    by (auto simp: wt_write_def)
next
  assume "fmt_channels r = 1 \<and> (\<exists>k. wave_size r = 2 ^ k) \<and> wave_size r < 2 ^ 32
      \<and> wave_count r = Some c \<and> 0 \<le> c \<and> c < 65536 \<and> data_samples r = Some d"
  then show "wt_write r sample looped full_range
        = Written ([0x76, 0x61, 0x77, 0x74] @ le_bytes 4 (wave_size r) @ le_bytes 2 c
                   @ le_bytes 2 (wt_set_flag r sample looped full_range) @ d)"
    by (intro wt_write_written) simp_all
qed

theorem wt_write_validation_witness:
  "wt_write (wt_example\<lparr>wave_size := 3000\<rparr>) False False True = No_File
   \<and> wt_write (wt_example\<lparr>fmt_channels := 2\<rparr>) False False True = No_File
   \<and> wt_write wt_example False False True
       = Written [0x76, 0x61, 0x77, 0x74, 2, 0, 0, 0, 2, 0, 12, 0, 1, 2, 3, 4, 5, 6, 7, 8]"
proof -
  have "\<not> (\<exists>k. (3000::int) = 2 ^ k)"
    using power_of_two_test [of 3000] by simp
  moreover have "\<exists>k. (2::int) = 2 ^ k"
    by (rule exI [of _ 1]) simp
  ultimately show ?thesis
    using wt_write_validation [of "wt_example\<lparr>wave_size := 3000\<rparr>" False False True]
      wt_write_validation [of "wt_example\<lparr>fmt_channels := 2\<rparr>" False False True]
      wt_write_validation [of wt_example False False True 2 "[1, 2, 3, 4, 5, 6, 7, 8]"]
    by (simp add: wt_example_def wavetable_init_def wt_set_flag_def le_bytes_numeral)
qed

text \<open>
  Without the bounds the last part fails: \<open>2 ^ 32\<close> is a power of two, but
  \<^verbatim>\<open>to_bytes(4, 'little')\<close> raises \<^verbatim>\<open>OverflowError\<close> for it, after the tag has been
  written.
\<close>

theorem wt_write_counterexample:
  "fmt_channels wide_size_example = 1
   \<and> wave_size wide_size_example = 2 ^ 32
   \<and> wt_write wide_size_example False False True = Failed OverflowError [0x76, 0x61, 0x77, 0x74]"
proof -
  have "(4294967296::int) AND 4294967295 = 0"
    using and_pred_power_of_two [of 32] by simp
  then show ?thesis
    by (simp add: wide_size_example_def wavetable_init_def wt_write_def to_bytes_def)
qed

subsection \<open>Round trip\<close>

lemma wt_set_flag_not_sample:
  "\<not> is_sample (wt_set_flag r False False full_range)"
  "\<not> is_looped (wt_set_flag r False False full_range)"
  by (cases full_range; simp add: wt_set_flag_def is_sample_def is_looped_def)+

text \<open>
  C2, as the code has it: for a mono record whose \<^verbatim>\<open>wave_size\<close> is a power of two
  below \<open>2 ^ 32\<close>, whose \<^verbatim>\<open>wave_count\<close> is an integer from 0 to 65535 and whose
  samples are present (fewer than \<open>2 ^ 53\<close> bytes), \<^verbatim>\<open>wt_write\<close> writes a file, and
  \<^verbatim>\<open>wt_import\<close> of that file into any record completes with the same samples, the same
  \<^verbatim>\<open>wave_size\<close>, and a \<^verbatim>\<open>wave_count\<close> that is the floor of the sample length over
  \<^verbatim>\<open>wave_size * fmt_bytes_p_block\<close> of the decoded record.
\<close>

theorem wt_round_trip:
  assumes "fmt_channels r = 1" and "\<exists>k. wave_size r = 2 ^ k" and "wave_size r < 2 ^ 32"
    and "wave_count r = Some c" and "0 \<le> c" and "c < 65536"
    and "data_samples r = Some d" and "int (length d) < 2 ^ 53"
  shows "\<exists>f r'. wt_write r False False full_range = Written f
           \<and> wt_import r0 f = (r', Inr False)
           \<and> data_samples r' = Some d
           \<and> wave_size r' = wave_size r
           \<and> wave_count r'
               = Some \<lfloor>real (length d) / real_of_int (wave_size r' * fmt_bytes_p_block r')\<rfloor>"
proof -
  define flag where "flag = wt_set_flag r False False full_range"
  define hdr where "hdr = [0x76, 0x61, 0x77, 0x74] @ le_bytes 4 (wave_size r) @ le_bytes 2 c"
  define b :: int where "b = (if is_int16 (from_bytes (le_bytes 2 flag)) then 16 else 32)"
  define r3 where "r3 = r0\<lparr>wave_size := from_bytes (take 4 (drop 4 hdr)),
                        wave_count := Some (from_bytes (drop 8 hdr)),
                        fmt_bits_p_sample := b,
                        data_samples := Some d,
                        fmt_audio_format := 1, fmt_channels := 1, fmt_sample_rate := 88200,
                        fmt_bytes_p_block := b div 8,
                        fmt_bytes_p_sec := 88200 * (b div 8)\<rparr>"
  have written: "wt_write r False False full_range = Written (hdr @ le_bytes 2 flag @ d)"
    using wt_write_written [OF assms(1-7)] by (simp add: hdr_def flag_def)
  have ws_pos: "0 < wave_size r" using assms(2) by auto
  have ws: "from_bytes (take 4 (drop 4 hdr)) = wave_size r"
    using ws_pos assms(3) by (simp add: hdr_def from_bytes_le_bytes)
  have fl: "from_bytes (le_bytes 2 flag) = flag"
    using wt_set_flag_range [of r False False full_range]
    by (simp add: flag_def from_bytes_flags)
  have len: "length hdr = 10" "length (le_bytes 2 flag) = 2"
    by (simp_all add: hdr_def)
  have flags: "\<not> is_sample (from_bytes (le_bytes 2 flag))" "\<not> is_looped (from_bytes (le_bytes 2 flag))"
    by (simp_all only: fl) (simp_all add: flag_def wt_set_flag_not_sample)
  have import: "wt_import r0 (hdr @ le_bytes 2 flag @ d)
                  = (case calc_wave_count r3 of
                       Inl e \<Rightarrow> (r3, Inl e)
                     | Inr c \<Rightarrow> (r3\<lparr>wave_count := Some c\<rparr>, Inr False))"
    by (rule wt_import_decoded [OF len flags b_def r3_def])
  have b: "b div 8 = 2 \<or> b div 8 = 4" by (simp add: b_def)
  then have "0 < wave_size r3 * fmt_bytes_p_block r3" "wave_size r3 * fmt_bytes_p_block r3 < 2 ^ 53"
    using ws_pos assms(3) by (auto simp: r3_def ws)
  then have "calc_wave_count r3 = Inr (int (length d) div (wave_size r3 * fmt_bytes_p_block r3))"
    using assms(8) by (intro calc_wave_count_exact) (simp_all add: r3_def)
  then have "wt_import r0 (hdr @ le_bytes 2 flag @ d)
               = (r3\<lparr>wave_count := Some (int (length d) div (wave_size r3 * fmt_bytes_p_block r3))\<rparr>,
                  Inr False)"
    by (simp add: import)
  with written show ?thesis
    by (simp add: floor_quotient r3_def ws del: of_int_mult)
qed

theorem wt_round_trip_witness:
  "\<exists>f r'. wt_write wt_example False False True = Written f
     \<and> wt_import wavetable_init f = (r', Inr False)
     \<and> data_samples r' = Some [1, 2, 3, 4, 5, 6, 7, 8]
     \<and> wave_size r' = 2
     \<and> wave_count r' = Some \<lfloor>real (length [1, 2, 3, 4, 5, 6, 7, 8 :: byte])
                                / real_of_int (wave_size r' * fmt_bytes_p_block r')\<rfloor>"
proof -
  have "\<exists>k. (2::int) = 2 ^ k"
    by (rule exI [of _ 1]) simp
  then show ?thesis
    using wt_round_trip [of wt_example 2 "[1, 2, 3, 4, 5, 6, 7, 8]" True wavetable_init]
    by (simp add: wt_example_def wavetable_init_def)
qed

text \<open>
  Without the bound on \<^verbatim>\<open>wave_count\<close> the round trip fails: the record below is mono
  with \<^verbatim>\<open>wave_size = 1\<close>, but its 65536 cycles do not fit into the two bytes of the
  count. \<^verbatim>\<open>wt_write\<close> raises after the tag and the wave size, and the eight bytes it
  leaves decode to an empty sample buffer.
\<close>

theorem wt_round_trip_counterexample:
  "fmt_channels long_table_example = 1
   \<and> wave_size long_table_example = 2 ^ 0
   \<and> wt_write long_table_example False False True
       = Failed OverflowError [0x76, 0x61, 0x77, 0x74, 1, 0, 0, 0]
   \<and> data_samples (fst (wt_import wavetable_init [0x76, 0x61, 0x77, 0x74, 1, 0, 0, 0])) = Some []
   \<and> data_samples long_table_example \<noteq> Some []"
proof -
  have "py_int_truediv 32 8 = Inr 4" "py_int_truediv 0 4 = Inr 0"
    using py_int_truediv_exact [of 32 8] py_int_truediv_exact [of 0 4] by simp_all
  then show ?thesis
    by (simp add: long_table_example_def wavetable_init_def wt_write_def to_bytes_def
        le_bytes_numeral wt_set_flag_def wt_import_def file_read_def wt_parse_flags_def
        is_sample_def is_looped_def is_int16_def set_data_def set_data_fields_def
        recalculates_def truthy_def no_args_def calc_fmt_bytes_p_block_def
        calc_fmt_bytes_p_sec_def calc_wave_count_def)
qed

section \<open>Properties of the cycle transforms\<close>

subsection \<open>Slicing\<close>

lemma py_range_steps:
  "0 < B \<Longrightarrow> 0 \<le> r \<Longrightarrow> r < B \<Longrightarrow>
   py_range i (i + B * int N + r) B
     = map (\<lambda>k. i + B * int k) [0..<N + (if 0 < r then 1 else 0)]"
proof (induction N arbitrary: i)
  case 0
  then show ?case
    by (simp add: py_range.simps [of i] py_range.simps [of "i + B"])
next
  case (Suc N)
  have "py_range i (i + B * int (Suc N) + r) B
          = i # py_range (i + B) ((i + B) + B * int N + r) B"
    using Suc.prems by (subst py_range.simps) (simp add: algebra_simps add_pos_nonneg)
  also have "\<dots> = i # map (\<lambda>k. (i + B) + B * int k) [0..<N + (if 0 < r then 1 else 0)]"
    using Suc.IH [OF Suc.prems] by simp
  also have "\<dots> = map (\<lambda>k. i + B * int k) [0..<Suc N + (if 0 < r then 1 else 0)]"
    by (simp add: upt_conv_Cons map_Suc_upt [symmetric] algebra_simps del: upt_Suc)
  finally show ?case .
qed

lemma py_range_nonempty: "0 < B \<Longrightarrow> 0 < n \<Longrightarrow> py_range 0 n B \<noteq> []"
  by (subst py_range.simps) simp

lemma py_range_empty: "B \<noteq> 0 \<Longrightarrow> py_range 0 0 B = []"
  by (subst py_range.simps) simp

lemma length_py_slice:
  "0 \<le> i \<Longrightarrow> i \<le> j \<Longrightarrow>
   length (py_slice xs i j) = nat (min j (int (length xs)) - min i (int (length xs)))"
  by (auto simp: py_slice_def Let_def min_def)

lemma slicer_map:
  assumes "data_samples r = Some d" and "wave_size r * fmt_bytes_p_block r = B" and "0 < B"
    and "0 \<le> rr" and "rr < B" and "int (length d) = B * int N + rr"
  shows "slicer r = Inr (map (\<lambda>k. py_slice d (B * int k) (B * int k + B))
                          [0..<N + (if 0 < rr then 1 else 0)])"
proof -
  have "py_range 0 (int (length d)) B = map (\<lambda>k. 0 + B * int k) [0..<N + (if 0 < rr then 1 else 0)]"
    using py_range_steps [of B rr 0 N] assms by simp
  then show ?thesis
    using assms by (simp add: slicer_def Let_def comp_def)
qed

lemma full_slice_length:
  assumes "0 < B" and "int (length d) = B * int N + rr" and "0 \<le> rr" and "k < N"
  shows "int (length (py_slice d (B * int k) (B * int k + B))) = B"
proof -
  have "B * int k + B \<le> B * int N"
  proof -
    have "B * (int k + 1) \<le> B * int N"
      using assms by (intro mult_left_mono) auto
    then show ?thesis by (simp add: algebra_simps)
  qed
  then have "B * int k + B \<le> int (length d)" and "0 \<le> B * int k"
    using assms by auto
  then show ?thesis
    using assms by (simp add: length_py_slice min_def)
qed

lemma last_slice_length:
  assumes "0 < B" and "int (length d) = B * int N + rr" and "0 < rr" and "rr < B"
  shows "int (length (py_slice d (B * int N) (B * int N + B))) = rr"
  using assms by (simp add: length_py_slice min_def)

text \<open>
  C5: with \<open>B = wave_size * fmt_bytes_p_block > 0\<close>, \<^verbatim>\<open>slicer\<close> cuts a buffer of
  \<open>B * N\<close> bytes into exactly \<open>N\<close> slices of \<open>B\<close> bytes each, and a buffer of
  \<open>B * N + rr\<close> bytes with \<open>0 < rr < B\<close> into \<open>N + 1\<close> slices, the last of \<open>rr\<close>
  bytes and every other one of \<open>B\<close> bytes.
\<close>

theorem slicer_lengths:
  assumes "data_samples r = Some d" and "wave_size r * fmt_bytes_p_block r = B" and "0 < B"
  shows "(int (length d) = B * int N \<longrightarrow>
            (\<exists>cs. slicer r = Inr cs \<and> length cs = N \<and> (\<forall>c \<in> set cs. int (length c) = B)))
       \<and> (0 < rr \<and> rr < B \<and> int (length d) = B * int N + rr \<longrightarrow>
            (\<exists>cs. slicer r = Inr cs \<and> length cs = N + 1 \<and> int (length (last cs)) = rr
                 \<and> (\<forall>c \<in> set (butlast cs). int (length c) = B)))"
proof (intro conjI impI)
  assume len: "int (length d) = B * int N"
  have "slicer r = Inr (map (\<lambda>k. py_slice d (B * int k) (B * int k + B)) [0..<N])"
    using slicer_map [OF assms, of 0 N] len assms by simp
  moreover have "\<forall>c \<in> set (map (\<lambda>k. py_slice d (B * int k) (B * int k + B)) [0..<N]).
                   int (length c) = B"
    using full_slice_length [of B d N 0] assms len by auto
  ultimately show "\<exists>cs. slicer r = Inr cs \<and> length cs = N \<and> (\<forall>c \<in> set cs. int (length c) = B)"
    by simp
next
  assume h: "0 < rr \<and> rr < B \<and> int (length d) = B * int N + rr"
  let ?f = "\<lambda>k. py_slice d (B * int k) (B * int k + B)"
  have s: "slicer r = Inr (map ?f [0..<N] @ [?f N])"
    using slicer_map [OF assms, of rr N] h by simp
  have "int (length (?f N)) = rr"
    using last_slice_length [of B d N rr] assms h by simp
  moreover have "\<forall>c \<in> set (map ?f [0..<N]). int (length c) = B"
    using full_slice_length [of B d N rr] assms h by auto
  ultimately show "\<exists>cs. slicer r = Inr cs \<and> length cs = N + 1 \<and> int (length (last cs)) = rr
                     \<and> (\<forall>c \<in> set (butlast cs). int (length c) = B)"
    using s by simp
qed

theorem slicer_lengths_witness:
  "(\<exists>cs. slicer dedupe_example = Inr cs \<and> length cs = 4 \<and> (\<forall>c \<in> set cs. int (length c) = 8))
   \<and> (\<exists>cs. slicer sliced_example = Inr cs \<and> length cs = 3 \<and> int (length (last cs)) = 2
         \<and> (\<forall>c \<in> set (butlast cs). int (length c) = 4))"
  using slicer_lengths [of sliced_example "[1, 2, 3, 4, 5, 6, 7, 8, 9, 10]" 4 2 2]
    slicer_lengths [of dedupe_example
      "[1, 2, 3, 4, 5, 6, 7, 8] @ [1, 2, 3, 4, 5, 6, 7, 8]
         @ [1, 2, 3, 4, 5, 6, 7, 8] @ [9, 10, 11, 12, 13, 14, 15, 16]" 8 4 0]
  by (simp add: sliced_example_def dedupe_example_def wavetable_init_def)

subsection \<open>Deduplication\<close>

lemma dedupe_loop_keep_after:
  "acc \<noteq> [] \<Longrightarrow> dedupe_loop cs acc = acc @ keep_after (last acc) cs"
  by (induction cs arbitrary: acc) auto

text \<open>The rule in the specification's words is the library's \<open>remdups_adj\<close>.\<close>

lemma kept_slices_spec_remdups_adj: "kept_slices_spec cs = remdups_adj cs"
proof -
  have "c # keep_after c rest = remdups_adj (c # rest)" for c :: 'a and rest
    by (induction rest arbitrary: c) auto
  then show ?thesis
    by (cases cs) (simp_all add: kept_slices_spec_def)
qed

text \<open>
  C4: when the samples slice into at least one cycle, \<^verbatim>\<open>deduplicator\<close> keeps the first
  slice and each later slice exactly when it differs from the most recently kept one. When
  nothing is dropped it returns \<^verbatim>\<open>True\<close> (no duplicates) and leaves the record as it
  is; otherwise \<^verbatim>\<open>data_samples\<close> becomes the concatenation of the kept slices,
  \<^verbatim>\<open>wave_interp\<close> becomes 0 and \<^verbatim>\<open>wave_count\<close> the number of kept slices.
\<close>

theorem deduplicator_keeps_adjacent_distinct:
  assumes "slicer r = Inr cs" and "cs \<noteq> []"
  shows "deduplicator r =
           (if length (kept_slices_spec cs) = length cs then (r, Inr True)
            else (r\<lparr>data_samples := Some (concat (kept_slices_spec cs)),
                    wave_interp := 0,
                    wave_count := Some (int (length (kept_slices_spec cs)))\<rparr>, Inr False))"
proof -
  from assms(2) obtain first rest where cs: "cs = first # rest"
    by (cases cs) auto
  have "dedupe_loop rest [first] = kept_slices_spec cs"
    by (simp add: cs dedupe_loop_keep_after kept_slices_spec_def)
  then show ?thesis
    using assms(1) by (simp add: deduplicator_def cs Let_def eq_commute)
qed

lemma slicer_dedupe_example:
  "slicer dedupe_example =
     Inr [[1, 2, 3, 4, 5, 6, 7, 8], [1, 2, 3, 4, 5, 6, 7, 8], [1, 2, 3, 4, 5, 6, 7, 8],
          [9, 10, 11, 12, 13, 14, 15, 16]]"
  by (simp add: dedupe_example_def wavetable_init_def slicer_def py_range.simps py_slice_def)

theorem deduplicator_keeps_adjacent_distinct_witness:
  "deduplicator dedupe_example =
     (dedupe_example\<lparr>data_samples := Some [1, 2, 3, 4, 5, 6, 7, 8, 9, 10, 11, 12, 13, 14, 15, 16],
                      wave_interp := 0, wave_count := Some 2\<rparr>, Inr False)"
  using deduplicator_keeps_adjacent_distinct [OF slicer_dedupe_example]
  by (simp add: kept_slices_spec_def)

lemma deduplicator_returns:
  assumes "slicer r = Inr cs" and "cs \<noteq> []"
  shows "\<exists>r' b. deduplicator r = (r', Inr b)"
proof -
  from assms(2) obtain first rest where cs: "cs = first # rest"
    by (cases cs) auto
  show ?thesis
    using assms(1) by (auto simp: deduplicator_def cs Let_def)
qed

text \<open>
  C9, as the code has it: \<^verbatim>\<open>deduplicator\<close> completes on a non-empty sample buffer
  when the slice length \<^verbatim>\<open>wave_size * fmt_bytes_p_block\<close> is positive: the list of
  slices is then non-empty and the access to its first element is in range. On the empty
  byte string with a nonzero slice length \<^verbatim>\<open>slicer\<close> returns the empty list and
  \<^verbatim>\<open>cycles_all[0]\<close> raises \<^verbatim>\<open>IndexError\<close>.
\<close>

theorem deduplicator_total_on_nonempty:
  "(data_samples r = Some d \<and> d \<noteq> [] \<and> 0 < wave_size r * fmt_bytes_p_block r \<longrightarrow>
      (\<exists>cs. slicer r = Inr cs \<and> cs \<noteq> [] \<and> (\<exists>r' b. deduplicator r = (r', Inr b))))
   \<and> (data_samples r = Some [] \<and> wave_size r * fmt_bytes_p_block r \<noteq> 0 \<longrightarrow>
      slicer r = Inr [] \<and> deduplicator r = (r, Inl IndexError))"
proof (rule conjI; rule impI)
  assume h: "data_samples r = Some d \<and> d \<noteq> [] \<and> 0 < wave_size r * fmt_bytes_p_block r"
  let ?B = "wave_size r * fmt_bytes_p_block r"
  let ?cs = "map (\<lambda>i. py_slice d i (i + ?B)) (py_range 0 (int (length d)) ?B)"
  have s: "slicer r = Inr ?cs"
    using h by (auto simp: slicer_def Let_def)
  have ne: "?cs \<noteq> []"
    using h py_range_nonempty [of ?B "int (length d)"] by simp
  have "\<exists>r' b. deduplicator r = (r', Inr b)"
    using deduplicator_returns [OF s ne] .
  with s ne show "\<exists>cs. slicer r = Inr cs \<and> cs \<noteq> [] \<and> (\<exists>r' b. deduplicator r = (r', Inr b))"
    by blast
next
  assume h: "data_samples r = Some [] \<and> wave_size r * fmt_bytes_p_block r \<noteq> 0"
  then have "slicer r = Inr []"
    by (auto simp: slicer_def Let_def py_range_empty)
  then show "slicer r = Inr [] \<and> deduplicator r = (r, Inl IndexError)"
    by (simp add: deduplicator_def)
qed

theorem deduplicator_total_on_nonempty_witness:
  "(\<exists>cs. slicer dedupe_example = Inr cs \<and> cs \<noteq> [] \<and> (\<exists>r' b. deduplicator dedupe_example = (r', Inr b)))
   \<and> slicer (wavetable_init\<lparr>data_samples := Some []\<rparr>) = Inr []
   \<and> deduplicator (wavetable_init\<lparr>data_samples := Some []\<rparr>)
       = (wavetable_init\<lparr>data_samples := Some []\<rparr>, Inl IndexError)"
  using deduplicator_total_on_nonempty [of dedupe_example
      "[1, 2, 3, 4, 5, 6, 7, 8] @ [1, 2, 3, 4, 5, 6, 7, 8]
                        @ [1, 2, 3, 4, 5, 6, 7, 8] @ [9, 10, 11, 12, 13, 14, 15, 16]"]
    deduplicator_total_on_nonempty [of "wavetable_init\<lparr>data_samples := Some []\<rparr>" "[]"]
  by (simp add: dedupe_example_def wavetable_init_def)

text \<open>
  The claim without the condition on the slice length fails: with a negative
  \<^verbatim>\<open>wave_size\<close> the range of slice starts is empty although the buffer is not, and
  the first-slice access raises \<^verbatim>\<open>IndexError\<close>.
\<close>

theorem deduplicator_nonempty_counterexample:
  "data_samples negative_size_example = Some [1, 2, 3, 4]
   \<and> slicer negative_size_example = Inr []
   \<and> deduplicator negative_size_example = (negative_size_example, Inl IndexError)"
  by (simp add: negative_size_example_def wavetable_init_def deduplicator_def slicer_def
      py_range.simps)

section \<open>Properties of the WAVE codec\<close>

subsection \<open>Data chunks\<close>

lemma is_data_tag: "is_data [0x64, 0x61, 0x74, 0x61]" "\<not> is_riff [0x64, 0x61, 0x74, 0x61]"
  "\<not> is_fmt [0x64, 0x61, 0x74, 0x61]" "\<not> is_clm [0x64, 0x61, 0x74, 0x61]"
  by (simp_all add: is_data_def is_riff_def is_fmt_def is_clm_def)

lemma wav_parse_chunk_keeps_samples:
  assumes "data_samples r = Some d" and "d \<noteq> []"
  shows "data_samples (fst (wav_parse_chunk r f pos chunk_id)) = Some d"
proof -
  have "data_samples (fst (wav_parse_riff r f pos)) = Some d"
    using assms by (simp add: wav_parse_riff_def Let_def case_prod_beta)
  moreover have "data_samples (fst (wav_parse_fmt r f pos)) = Some d"
    using assms by (simp add: wav_parse_fmt_def Let_def case_prod_beta)
  moreover have "data_samples (fst (wav_parse_clm r f pos)) = Some d"
    using assms by (simp add: wav_parse_clm_def Let_def case_prod_beta split: sum.splits)
  moreover have "data_samples (fst (wav_parse_data r f pos)) = Some d"
    using assms by (simp add: wav_parse_data_def Let_def case_prod_beta no_samples_def)
  ultimately show ?thesis
    using assms by (simp add: wav_parse_chunk_def)
qed

lemma wav_import_loop_keeps_samples:
  "data_samples r = Some d \<Longrightarrow> d \<noteq> [] \<Longrightarrow> data_samples (fst (wav_import_loop r f pos)) = Some d"
proof (induction r f pos rule: wav_import_loop.induct)
  case (1 r f pos)
  obtain chunk_id pos1 where rd: "file_read f pos 4 = (chunk_id, pos1)"
    by (cases "file_read f pos 4")
  show ?case
  proof (cases "length chunk_id = 4")
    case False
    then show ?thesis
      using 1(2) rd by (subst wav_import_loop.simps) simp
  next
    case True
    obtain r' pos' res where pc: "wav_parse_chunk r f pos1 chunk_id = (r', pos', res)"
      by (cases "wav_parse_chunk r f pos1 chunk_id")
    have keep: "data_samples r' = Some d"
      using wav_parse_chunk_keeps_samples [OF 1(2,3), of f pos1 chunk_id] pc by simp
    show ?thesis
    proof (cases res)
      case (Inl e)
      then show ?thesis
        using rd True pc keep by (subst wav_import_loop.simps) simp
    next
      case (Inr stop)
      show ?thesis
      proof (cases stop)
        case True
        then show ?thesis
          using rd \<open>length chunk_id = 4\<close> pc keep Inr by (subst wav_import_loop.simps) simp
      next
        case False
        have "data_samples (fst (wav_import_loop r' f pos')) = Some d"
          using 1(1) [OF rd [symmetric] _ pc [symmetric] refl Inr False keep 1(3)]
            \<open>length chunk_id = 4\<close> by simp
        then show ?thesis
          using rd \<open>length chunk_id = 4\<close> pc Inr False by (subst wav_import_loop.simps) simp
      qed
    qed
  qed
qed

lemma wav_import_loop_step:
  assumes "file_read f pos 4 = (chunk_id, pos1)" and "length chunk_id = 4"
    and "wav_parse_chunk r f pos1 chunk_id = (r', pos', Inr False)"
  shows "wav_import_loop r f pos = wav_import_loop r' f pos'"
  using assms by (subst wav_import_loop.simps) simp

lemma wav_import_loop_end:
  assumes "length f \<le> pos"
  shows "wav_import_loop r f pos = (r, Inr False)"
  using assms by (subst wav_import_loop.simps) (simp add: file_read_def)

lemma wav_parse_data_skips:
  assumes "data_samples r = Some d" and "d \<noteq> []"
  shows "wav_parse_chunk r f pos [0x64, 0x61, 0x74, 0x61] = (r, snd (file_read f pos 4), Inr False)"
  using assms
  by (simp add: wav_parse_chunk_def is_data_tag wav_parse_data_def no_samples_def case_prod_beta)

lemma wav_parse_data_captures:
  assumes "no_samples r" and "int (length p) < 2 ^ 32"
  shows "wav_parse_chunk r (pre @ data_chunk p @ rest) (length pre + 4) [0x64, 0x61, 0x74, 0x61]
           = (r\<lparr>data_samples := Some p\<rparr>, length pre + 8 + length p, Inr False)"
proof -
  let ?f = "pre @ data_chunk p @ rest"
  have "from_bytes (le_bytes 4 (int (length p))) = int (length p)"
    using assms(2) by (simp add: from_bytes_le_bytes)
  then have "file_read ?f (length pre + 4) 4 = (le_bytes 4 (int (length p)), length pre + 8)"
    and "file_read ?f (length pre + 8) (nat (from_bytes (le_bytes 4 (int (length p)))))
           = (p, length pre + 8 + length p)"
    by (simp_all add: file_read_def data_chunk_def)
  then show ?thesis
    using assms(1)
    by (simp add: wav_parse_chunk_def is_data_tag wav_parse_data_def)
qed

text \<open>
  C8, as the code has it: when a \<^verbatim>\<open>data\<close> tag is met while the record holds a
  non-empty sample buffer, \<^verbatim>\<open>wav_parse_chunk\<close> reads the size field and nothing else:
  the record is unchanged and the result is \<^verbatim>\<open>None\<close>, neither a stop nor an error. The
  samples then stay what they are through the rest of the loop, whatever the stream
  holds. So the first data chunk with a non-empty payload wins: when the loop reaches it
  with a record without samples, the samples at the end are its payload.
\<close>

theorem first_data_chunk_wins:
  "(data_samples r = Some d \<and> d \<noteq> [] \<longrightarrow>
      wav_parse_chunk r f pos [0x64, 0x61, 0x74, 0x61] = (r, snd (file_read f pos 4), Inr False)
    \<and> data_samples (fst (wav_import_loop r f pos')) = Some d)
   \<and> (no_samples r \<and> p \<noteq> [] \<and> int (length p) < 2 ^ 32 \<longrightarrow>
      data_samples (fst (wav_import_loop r (pre @ data_chunk p @ rest) (length pre))) = Some p)"
proof (rule conjI; rule impI)
  assume "data_samples r = Some d \<and> d \<noteq> []"
  then show "wav_parse_chunk r f pos [0x64, 0x61, 0x74, 0x61] = (r, snd (file_read f pos 4), Inr False)
    \<and> data_samples (fst (wav_import_loop r f pos')) = Some d"
    by (simp add: wav_parse_data_skips wav_import_loop_keeps_samples)
next
  assume h: "no_samples r \<and> p \<noteq> [] \<and> int (length p) < 2 ^ 32"
  let ?f = "pre @ data_chunk p @ rest"
  have rd: "file_read ?f (length pre) 4 = ([0x64, 0x61, 0x74, 0x61], length pre + 4)"
    by (simp add: file_read_def data_chunk_def)
  have "wav_import_loop r ?f (length pre)
               = wav_import_loop (r\<lparr>data_samples := Some p\<rparr>) ?f (length pre + 8 + length p)"
    using h by (intro wav_import_loop_step [OF rd]) (simp_all add: wav_parse_data_captures)
  then show "data_samples (fst (wav_import_loop r ?f (length pre))) = Some p"
    using h by (simp add: wav_import_loop_keeps_samples)
qed

theorem first_data_chunk_wins_witness:
  "wav_parse_chunk (wavetable_init\<lparr>data_samples := Some [7, 6]\<rparr>) two_data_example 26
       [0x64, 0x61, 0x74, 0x61]
     = (wavetable_init\<lparr>data_samples := Some [7, 6]\<rparr>, 30, Inr False)
   \<and> data_samples (fst (wav_import_loop (wavetable_init\<lparr>data_samples := Some [7, 6]\<rparr>)
                            two_data_example 22)) = Some [7, 6]
   \<and> data_samples (fst (wav_import_loop wavetable_init two_data_example 12)) = Some [7, 6]"
proof -
  have len: "length riff_header = 12"
    by (simp add: riff_header_def)
  have captured: "data_samples (fst (wav_import_loop wavetable_init two_data_example 12)) = Some [7, 6]"
    using first_data_chunk_wins [of wavetable_init "[7, 6]" two_data_example 26 22 "[7, 6]"
        riff_header "data_chunk [9, 8]"]
    by (simp add: two_data_example_def len no_samples_def wavetable_init_def)
  have "snd (file_read two_data_example 26 4) = 30"
    by (simp add: two_data_example_def riff_header_def data_chunk_def file_read_def
        le_bytes_numeral)
  then have "wav_parse_chunk (wavetable_init\<lparr>data_samples := Some [7, 6]\<rparr>) two_data_example 26
       [0x64, 0x61, 0x74, 0x61]
     = (wavetable_init\<lparr>data_samples := Some [7, 6]\<rparr>, 30, Inr False)
   \<and> data_samples (fst (wav_import_loop (wavetable_init\<lparr>data_samples := Some [7, 6]\<rparr>)
                            two_data_example 22)) = Some [7, 6]"
    using first_data_chunk_wins [of "wavetable_init\<lparr>data_samples := Some [7, 6]\<rparr>" "[7, 6]"
        two_data_example 26 22 "[7, 6]" riff_header "data_chunk [9, 8]"]
    by simp
  with captured show ?thesis by simp
qed

text \<open>
  A first data chunk with an empty payload does not win: \<^verbatim>\<open>not self.data_samples\<close> is
  true for the empty byte string, and the payload of the second chunk is taken.
\<close>

theorem first_data_chunk_wins_counterexample:
  "empty_data_example = riff_header @ data_chunk [] @ data_chunk [9, 8]
   \<and> wav_import wavetable_init empty_data_example
       = (wavetable_init\<lparr>data_samples := Some [9, 8], wave_count := Some 0\<rparr>, Inr False)"
proof -
  have "py_int_truediv 2 4096 = Inr 0"
    using py_int_truediv_exact [of 2 4096] by simp
  then show ?thesis
    by (simp add: empty_data_example_def riff_header_def data_chunk_def le_bytes_numeral
        wav_import_def wav_import_loop.simps file_read_def wav_parse_chunk_def
        wav_parse_riff_def wav_parse_data_def is_riff_def is_fmt_def is_clm_def is_data_def
        no_samples_def wavetable_init_def calc_wave_count_def)
qed

subsection \<open>The clm payload\<close>

lemma py_slice_take_drop:
  assumes "0 \<le> i" and "i \<le> j"
  shows "py_slice xs i j = take (nat j - nat i) (drop (nat i) xs)"
proof (cases "i \<le> int (length xs)")
  case True
  then show ?thesis
    using assms by (auto simp: py_slice_def Let_def min_def nat_diff_distrib)
next
  case False
  then show ?thesis
    using assms by (simp add: py_slice_def Let_def min_def)
qed

lemma wav_clm_data_layout:
  assumes "1000 \<le> wave_size r" and "wave_size r \<le> 9999"
    and "0 \<le> wave_interp r" and "wave_interp r \<le> 9"
  shows "wav_clm_data r
           = [0x3C, 0x21, 0x3E,
              0x30 + of_nat (nat (wave_size r) div 1000),
              0x30 + of_nat (nat (wave_size r) div 100 mod 10),
              0x30 + of_nat (nat (wave_size r) div 10 mod 10),
              0x30 + of_nat (nat (wave_size r) mod 10),
              0x20,
              0x30 + of_nat (nat (wave_interp r)),
              0x30, 0x30, 0x30, 0x30, 0x30, 0x30, 0x30, 0x20]
             @ wave_vendor r @ (if even (length (wave_vendor r)) then [0x00] else [])"
proof -
  have "py_str (wave_size r) = decimal (nat (wave_size r))"
    and "py_str (wave_interp r) = decimal (nat (wave_interp r))"
    using assms by (simp_all add: py_str_def)
  moreover have "decimal (nat (wave_interp r)) = [0x30 + of_nat (nat (wave_interp r))]"
    using assms by (intro decimal_one_digit) simp
  moreover have "decimal (nat (wave_size r))
      = [0x30 + of_nat (nat (wave_size r) div 1000), 0x30 + of_nat (nat (wave_size r) div 100 mod 10),
         0x30 + of_nat (nat (wave_size r) div 10 mod 10), 0x30 + of_nat (nat (wave_size r) mod 10)]"
    using assms by (intro decimal_four_digits) simp_all
  ultimately show ?thesis
    by (simp add: wav_clm_data_def Let_def) presburger
qed

lemma wav_clm_data_parsed:
  assumes "1000 \<le> wave_size r" and "wave_size r \<le> 9999"
    and "0 \<le> wave_interp r" and "wave_interp r \<le> 9"
  shows "py_int (py_slice (wav_clm_data r) 3 7) = Inr (wave_size r)"
    and "py_int (py_slice (wav_clm_data r) 8 9) = Inr (wave_interp r)"
    and "drop 17 (wav_clm_data r)
           = wave_vendor r @ (if even (length (wave_vendor r)) then [0x00] else [])"
proof -
  define n where "n = nat (wave_size r)"
  have n: "1000 \<le> n" "n \<le> 9999" "wave_size r = int n"
    using assms by (simp_all add: n_def)
  have digits: "n div 1000 < 10" "n div 100 mod 10 < 10" "n div 10 mod 10 < 10" "n mod 10 < 10"
    using n by simp_all
  have "1000 * (n div 1000) + 100 * (n div 100 mod 10) + 10 * (n div 10 mod 10) + n mod 10 = n"
    by (rule digits_sum)
  then have "py_int [0x30 + of_nat (n div 1000), 0x30 + of_nat (n div 100 mod 10),
                     0x30 + of_nat (n div 10 mod 10), 0x30 + of_nat (n mod 10)] = Inr (int n)"
    using py_int_four_digits [OF digits] by simp
  then show "py_int (py_slice (wav_clm_data r) 3 7) = Inr (wave_size r)"
    by (simp add: wav_clm_data_layout [OF assms] py_slice_take_drop n_def [symmetric] n(3))
  have "py_int [0x30 + of_nat (nat (wave_interp r))] = Inr (wave_interp r)"
    using assms py_int_one_digit [of "nat (wave_interp r)"] by simp
  then show "py_int (py_slice (wav_clm_data r) 8 9) = Inr (wave_interp r)"
    by (simp add: wav_clm_data_layout [OF assms] py_slice_take_drop)
  show "drop 17 (wav_clm_data r)
           = wave_vendor r @ (if even (length (wave_vendor r)) then [0x00] else [])"
    by (simp add: wav_clm_data_layout [OF assms])
qed

lemma length_wav_clm_data:
  assumes "1000 \<le> wave_size r" and "wave_size r \<le> 9999"
    and "0 \<le> wave_interp r" and "wave_interp r \<le> 9"
  shows "length (wav_clm_data r)
           = 17 + length (wave_vendor r) + (if even (length (wave_vendor r)) then 1 else 0)"
  by (simp add: wav_clm_data_layout [OF assms])

subsection \<open>Chunks as they are written and read back\<close>

lemma chunk_tags:
  "is_riff [0x52, 0x49, 0x46, 0x46]"
  "is_fmt [0x66, 0x6D, 0x74, 0x20]" "\<not> is_riff [0x66, 0x6D, 0x74, 0x20]"
  "is_clm [0x63, 0x6C, 0x6D, 0x20]" "\<not> is_riff [0x63, 0x6C, 0x6D, 0x20]"
  "\<not> is_fmt [0x63, 0x6C, 0x6D, 0x20]"
  by (simp_all add: is_riff_def is_fmt_def is_clm_def)

lemma wav_parse_riff_written:
  assumes "length sz = 4"
  shows "wav_parse_chunk r ([0x52, 0x49, 0x46, 0x46] @ sz @ [0x57, 0x41, 0x56, 0x45] @ rest) 4
           [0x52, 0x49, 0x46, 0x46] = (r, 12, Inr False)"
  using assms by (simp add: wav_parse_chunk_def chunk_tags wav_parse_riff_def file_read_def)

lemma le_bytes_fields:
  "0 \<le> x \<Longrightarrow> x < 65536 \<Longrightarrow> from_bytes (le_bytes 2 x) = x"
  "0 \<le> y \<Longrightarrow> y < 4294967296 \<Longrightarrow> from_bytes (le_bytes 4 y) = y"
  using from_bytes_le_bytes [of x 2] from_bytes_le_bytes [of y 4] by simp_all

lemma wav_parse_fmt_written:
  assumes "0 \<le> fmt_audio_format q" and "fmt_audio_format q < 65536"
    and "0 \<le> fmt_channels q" and "fmt_channels q < 65536"
    and "0 \<le> fmt_sample_rate q" and "fmt_sample_rate q < 4294967296"
    and "0 \<le> fmt_bytes_p_sec q" and "fmt_bytes_p_sec q < 4294967296"
    and "0 \<le> fmt_bytes_p_block q" and "fmt_bytes_p_block q < 65536"
    and "0 \<le> fmt_bits_p_sample q" and "fmt_bits_p_sample q < 65536"
  shows "wav_parse_chunk r (pre @ fmt_chunk q @ post) (length pre + 4) [0x66, 0x6D, 0x74, 0x20]
           = (r\<lparr>fmt_audio_format := fmt_audio_format q,
                 fmt_channels := fmt_channels q,
                 fmt_sample_rate := fmt_sample_rate q,
                 fmt_bytes_p_sec := fmt_bytes_p_sec q,
                 fmt_bytes_p_block := fmt_bytes_p_block q,
                 fmt_bits_p_sample := fmt_bits_p_sample q\<rparr>, length pre + 24, Inr False)"
proof -
  let ?f = "pre @ fmt_chunk q @ post"
  have r1: "file_read ?f n 2 = (le_bytes 2 (fmt_audio_format q), length pre + 10)"
    if "n = length pre + 8" for n
    using that by (simp add: file_read_def fmt_chunk_def)
  have r2: "file_read ?f n 2 = (le_bytes 2 (fmt_channels q), length pre + 12)"
    if "n = length pre + 10" for n
    using that by (simp add: file_read_def fmt_chunk_def)
  have r3: "file_read ?f n 4 = (le_bytes 4 (fmt_sample_rate q), length pre + 16)"
    if "n = length pre + 12" for n
    using that by (simp add: file_read_def fmt_chunk_def)
  have r4: "file_read ?f n 4 = (le_bytes 4 (fmt_bytes_p_sec q), length pre + 20)"
    if "n = length pre + 16" for n
    using that by (simp add: file_read_def fmt_chunk_def)
  have r5: "file_read ?f n 2 = (le_bytes 2 (fmt_bytes_p_block q), length pre + 22)"
    if "n = length pre + 20" for n
    using that by (simp add: file_read_def fmt_chunk_def)
  have r6: "file_read ?f n 2 = (le_bytes 2 (fmt_bits_p_sample q), length pre + 24)"
    if "n = length pre + 22" for n
    using that by (simp add: file_read_def fmt_chunk_def)
  show ?thesis
    using assms
    by (simp add: wav_parse_chunk_def chunk_tags wav_parse_fmt_def r1 r2 r3 r4 r5 r6
        le_bytes_fields)
qed

lemma wav_parse_clm_written:
  assumes "py_int (py_slice (wav_clm_data q) 3 7) = Inr ws"
    and "py_int (py_slice (wav_clm_data q) 8 9) = Inr wi"
    and "int (length (wav_clm_data q)) < 4294967296"
  shows "wav_parse_chunk r (pre @ clm_chunk q @ post) (length pre + 4) [0x63, 0x6C, 0x6D, 0x20]
           = (r\<lparr>wave_size := ws, wave_interp := wi, wave_vendor := drop 17 (wav_clm_data q)\<rparr>,
              length pre + 8 + length (wav_clm_data q), Inr False)"
proof -
  let ?f = "pre @ clm_chunk q @ post"
  have sz: "from_bytes (le_bytes 4 (int (length (wav_clm_data q)))) = int (length (wav_clm_data q))"
    using assms(3) by (simp add: le_bytes_fields)
  have r1: "file_read ?f (length pre + 4) 4
              = (le_bytes 4 (int (length (wav_clm_data q))), length pre + 8)"
    by (simp add: file_read_def clm_chunk_def)
  have r2: "file_read ?f (length pre + 8) (length (wav_clm_data q))
              = (wav_clm_data q, length pre + 8 + length (wav_clm_data q))"
    by (simp add: file_read_def clm_chunk_def Let_def)
  show ?thesis
    by (simp add: wav_parse_chunk_def chunk_tags wav_parse_clm_def r1 r2 sz assms(1,2))
qed

lemma chunk_lengths:
  "length (fmt_chunk r) = 24"
  "length (clm_chunk r) = 8 + length (wav_clm_data r)"
  "length (data_chunk d) = 8 + length d"
  by (simp_all add: fmt_chunk_def clm_chunk_def data_chunk_def)

lemma to_bytes_fields:
  "0 \<le> x \<Longrightarrow> x < 65536 \<Longrightarrow> to_bytes x 2 = Inr (le_bytes 2 x)"
  "0 \<le> y \<Longrightarrow> y < 4294967296 \<Longrightarrow> to_bytes y 4 = Inr (le_bytes 4 y)"
  by (simp_all add: to_bytes_def)

lemma wav_write_layout:
  assumes "fmt_fields_fit r" and "data_samples r = Some d"
    and "44 + int (length (wav_clm_data r)) + int (length d) < 4294967296"
  shows "wav_write r
           = Written ([0x52, 0x49, 0x46, 0x46]
                      @ le_bytes 4 (44 + int (length (wav_clm_data r)) + int (length d))
                      @ [0x57, 0x41, 0x56, 0x45] @ fmt_chunk r @ clm_chunk r @ data_chunk d)"
proof -
  define out where
    "out = [0x52, 0x49, 0x46, 0x46] @ [0x00, 0x00, 0x00, 0x00] @ [0x57, 0x41, 0x56, 0x45]
             @ fmt_chunk r @ clm_chunk r @ data_chunk d"
  have "to_bytes (int (length (wav_clm_data r))) 4 = Inr (le_bytes 4 (int (length (wav_clm_data r))))"
    and "to_bytes (int (length d)) 4 = Inr (le_bytes 4 (int (length d)))"
    using assms(3) by (simp_all add: to_bytes_fields)
  then have written: "write_all
      [Inr [0x52, 0x49, 0x46, 0x46],
       Inr [0x00, 0x00, 0x00, 0x00],
       Inr [0x57, 0x41, 0x56, 0x45],
       Inr [0x66, 0x6D, 0x74, 0x20],
       Inr [0x10, 0x00, 0x00, 0x00],
       to_bytes (fmt_audio_format r) 2,
       to_bytes (fmt_channels r) 2,
       to_bytes (fmt_sample_rate r) 4,
       to_bytes (fmt_bytes_p_sec r) 4,
       to_bytes (fmt_bytes_p_block r) 2,
       to_bytes (fmt_bits_p_sample r) 2,
       Inr [0x63, 0x6C, 0x6D, 0x20],
       to_bytes (int (length (wav_clm_data r))) 4,
       Inr (wav_clm_data r),
       Inr [0x64, 0x61, 0x74, 0x61],
       (case data_samples r of None \<Rightarrow> Inl TypeError | Some d \<Rightarrow> to_bytes (int (length d)) 4),
       (case data_samples r of None \<Rightarrow> Inl TypeError | Some d \<Rightarrow> Inr d)] [] = (out, None)"
    using assms(1,2)
    by (simp add: fmt_fields_fit_def to_bytes_fields out_def fmt_chunk_def clm_chunk_def
        data_chunk_def)
  have len: "int (length out) - 8 = 44 + int (length (wav_clm_data r)) + int (length d)"
    by (simp add: out_def chunk_lengths)
  have patch: "take 4 out = [0x52, 0x49, 0x46, 0x46]"
    "drop 8 out = [0x57, 0x41, 0x56, 0x45] @ fmt_chunk r @ clm_chunk r @ data_chunk d"
    by (simp_all add: out_def)
  show ?thesis
    using assms(3) unfolding wav_write_def Let_def written
    by (simp add: len patch to_bytes_fields)
qed

subsection \<open>Round trip through a WAVE file\<close>

text \<open>
  The loop on a file of the four chunks in the order of \<^verbatim>\<open>wav_write\<close>: the fmt
  fields and the samples come back, and the clm fields are whatever the fixed offsets of
  the payload hold.
\<close>

lemma wav_import_written:
  assumes fit: "fmt_fields_fit r"
    and size: "py_int (py_slice (wav_clm_data r) 3 7) = Inr ws"
    and interp: "py_int (py_slice (wav_clm_data r) 8 9) = Inr wi"
    and len: "int (length (wav_clm_data r)) < 4294967296" "int (length d) < 4294967296"
    and sz: "length sz = 4"
    and fresh: "no_samples r0"
  shows "wav_import_loop r0
           ([0x52, 0x49, 0x46, 0x46] @ sz @ [0x57, 0x41, 0x56, 0x45]
              @ fmt_chunk r @ clm_chunk r @ data_chunk d) 0
         = (r0\<lparr>fmt_audio_format := fmt_audio_format r,
                fmt_channels := fmt_channels r,
                fmt_sample_rate := fmt_sample_rate r,
                fmt_bytes_p_sec := fmt_bytes_p_sec r,
                fmt_bytes_p_block := fmt_bytes_p_block r,
                fmt_bits_p_sample := fmt_bits_p_sample r,
                wave_size := ws,
                wave_interp := wi,
                wave_vendor := drop 17 (wav_clm_data r),
                data_samples := Some d\<rparr>, Inr False)"
proof -
  define pre1 where "pre1 = [0x52, 0x49, 0x46, 0x46] @ sz @ [0x57, 0x41, 0x56, 0x45]"
  define pre2 where "pre2 = pre1 @ fmt_chunk r"
  define pre3 where "pre3 = pre2 @ clm_chunk r"
  define f where "f = pre3 @ data_chunk d"
  define r1 where "r1 = r0\<lparr>fmt_audio_format := fmt_audio_format r,
                fmt_channels := fmt_channels r,
                fmt_sample_rate := fmt_sample_rate r,
                fmt_bytes_p_sec := fmt_bytes_p_sec r,
                fmt_bytes_p_block := fmt_bytes_p_block r,
                fmt_bits_p_sample := fmt_bits_p_sample r\<rparr>"
  define r2 where "r2 = r1\<lparr>wave_size := ws, wave_interp := wi,
                           wave_vendor := drop 17 (wav_clm_data r)\<rparr>"
  have lens: "length pre1 = 12" "length pre2 = 36" "length pre3 = 44 + length (wav_clm_data r)"
    "length f = 52 + length (wav_clm_data r) + length d"
    using sz by (simp_all add: pre1_def pre2_def pre3_def f_def chunk_lengths)
  have f1: "f = [0x52, 0x49, 0x46, 0x46] @ sz @ [0x57, 0x41, 0x56, 0x45]
                  @ (fmt_chunk r @ clm_chunk r @ data_chunk d)"
    and f2: "f = pre1 @ fmt_chunk r @ (clm_chunk r @ data_chunk d)"
    and f3: "f = pre2 @ clm_chunk r @ data_chunk d"
    and f4: "f = pre3 @ data_chunk d @ []"
    by (simp_all add: f_def pre3_def pre2_def pre1_def)
  have "wav_import_loop r0 f 0 = wav_import_loop r0 f 12"
  proof (rule wav_import_loop_step)
    show "file_read f 0 4 = ([0x52, 0x49, 0x46, 0x46], 4)"
      by (simp add: f1 file_read_def)
    show "wav_parse_chunk r0 f 4 [0x52, 0x49, 0x46, 0x46] = (r0, 12, Inr False)"
      unfolding f1 using sz by (rule wav_parse_riff_written)
  qed simp
  also have "\<dots> = wav_import_loop r1 f 36"
  proof (rule wav_import_loop_step)
    show "file_read f 12 4 = ([0x66, 0x6D, 0x74, 0x20], 16)"
      by (simp add: f2 file_read_def lens fmt_chunk_def)
    show "wav_parse_chunk r0 f 16 [0x66, 0x6D, 0x74, 0x20] = (r1, 36, Inr False)"
      using fit wav_parse_fmt_written [of r r0 pre1 "clm_chunk r @ data_chunk d"]
      by (simp add: f2 [symmetric] lens r1_def fmt_fields_fit_def)
  qed simp
  also have "\<dots> = wav_import_loop r2 f (44 + length (wav_clm_data r))"
  proof (rule wav_import_loop_step)
    show "file_read f 36 4 = ([0x63, 0x6C, 0x6D, 0x20], 40)"
      by (simp add: f3 file_read_def lens clm_chunk_def)
    show "wav_parse_chunk r1 f 40 [0x63, 0x6C, 0x6D, 0x20]
            = (r2, 44 + length (wav_clm_data r), Inr False)"
      using wav_parse_clm_written [OF size interp len(1), of r1 pre2 "data_chunk d"]
      by (simp add: f3 [symmetric] lens r2_def)
  qed simp
  also have "\<dots> = wav_import_loop (r2\<lparr>data_samples := Some d\<rparr>) f
                       (52 + length (wav_clm_data r) + length d)"
  proof (rule wav_import_loop_step)
    show "file_read f (44 + length (wav_clm_data r)) 4
            = ([0x64, 0x61, 0x74, 0x61], 48 + length (wav_clm_data r))"
      by (simp add: f4 file_read_def lens data_chunk_def)
    have "no_samples r2"
      using fresh by (simp add: no_samples_def r2_def r1_def)
    then show "wav_parse_chunk r2 f (48 + length (wav_clm_data r)) [0x64, 0x61, 0x74, 0x61]
            = (r2\<lparr>data_samples := Some d\<rparr>, 52 + length (wav_clm_data r) + length d, Inr False)"
      using wav_parse_data_captures [of r2 d pre3 "[]"] len(2)
      by (simp add: f_def [symmetric] lens)
  qed simp
  also have "\<dots> = (r2\<lparr>data_samples := Some d\<rparr>, Inr False)"
    by (rule wav_import_loop_end) (simp add: lens)
  finally show ?thesis
    by (simp add: f_def pre3_def pre2_def pre1_def r2_def r1_def)
qed

text \<open>The recalculation after the loop touches \<^verbatim>\<open>wave_count\<close> only.\<close>

lemma wav_import_after_loop:
  assumes "wav_import_loop r f 0 = (r', Inr False)"
  shows "wave_size (fst (wav_import r f)) = wave_size r'"
    and "wave_interp (fst (wav_import r f)) = wave_interp r'"
    and "wave_vendor (fst (wav_import r f)) = wave_vendor r'"
    and "data_samples (fst (wav_import r f)) = data_samples r'"
  using assms by (simp_all add: wav_import_def split: sum.splits)

text \<open>
  C1, as the code has it: \<^verbatim>\<open>wav_write\<close> returns and \<^verbatim>\<open>wav_import\<close> of the file it
  wrote, into a record without samples, returns with the same samples, \<^verbatim>\<open>wave_size\<close>
  and \<^verbatim>\<open>wave_interp\<close>, when the six fmt fields fit their byte widths, \<^verbatim>\<open>wave_size\<close>
  has four decimal digits, \<^verbatim>\<open>wave_interp\<close> has one, the samples are present and the
  file size fits four bytes. The vendor bytes come back followed by the zero byte that
  \<^verbatim>\<open>wav_write\<close> appends to a clm payload of odd length, which is the case exactly when
  the vendor string has even length; they come back unchanged when its length is odd.
  The six fmt fields are read back as written, and \<^verbatim>\<open>wave_count\<close> is recalculated
  (\<^verbatim>\<open>fmt_bytes_p_block\<close> is not zero, or the recalculation divides by zero).
\<close>

theorem wav_round_trip:
  assumes "fmt_fields_fit r" and "fmt_bytes_p_block r \<noteq> 0"
    and "1000 \<le> wave_size r" and "wave_size r \<le> 9999"
    and "0 \<le> wave_interp r" and "wave_interp r \<le> 9"
    and "data_samples r = Some d"
    and "61 + int (length (wave_vendor r)) + (if even (length (wave_vendor r)) then 1 else 0)
           + int (length d) < 2 ^ 32"
    and "no_samples r0"
  shows "\<exists>f r'. wav_write r = Written f
           \<and> wav_import r0 f = (r', Inr False)
           \<and> data_samples r' = Some d
           \<and> wave_size r' = wave_size r
           \<and> wave_interp r' = wave_interp r
           \<and> wave_vendor r' = wave_vendor r @ (if even (length (wave_vendor r)) then [0x00] else [])
           \<and> fmt_audio_format r' = fmt_audio_format r
           \<and> fmt_channels r' = fmt_channels r
           \<and> fmt_sample_rate r' = fmt_sample_rate r
           \<and> fmt_bytes_p_sec r' = fmt_bytes_p_sec r
           \<and> fmt_bytes_p_block r' = fmt_bytes_p_block r
           \<and> fmt_bits_p_sample r' = fmt_bits_p_sample r
           \<and> wave_count r' = Some (int (length d) div (wave_size r * fmt_bytes_p_block r))"
proof -
  define sz where "sz = le_bytes 4 (44 + int (length (wav_clm_data r)) + int (length d))"
  define f where "f = [0x52, 0x49, 0x46, 0x46] @ sz @ [0x57, 0x41, 0x56, 0x45]
                        @ fmt_chunk r @ clm_chunk r @ data_chunk d"
  define r3 where "r3 = r0\<lparr>fmt_audio_format := fmt_audio_format r,
                fmt_channels := fmt_channels r,
                fmt_sample_rate := fmt_sample_rate r,
                fmt_bytes_p_sec := fmt_bytes_p_sec r,
                fmt_bytes_p_block := fmt_bytes_p_block r,
                fmt_bits_p_sample := fmt_bits_p_sample r,
                wave_size := wave_size r,
                wave_interp := wave_interp r,
                wave_vendor := wave_vendor r
                                 @ (if even (length (wave_vendor r)) then [0x00] else []),
                data_samples := Some d\<rparr>"
  have total: "44 + int (length (wav_clm_data r)) + int (length d) < 4294967296"
    using assms(8) by (auto simp: length_wav_clm_data [OF assms(3-6)] split: if_splits)
  have written: "wav_write r = Written f"
    using wav_write_layout [OF assms(1,7) total] by (simp add: f_def sz_def)
  have "wav_import_loop r0 f 0 = (r3, Inr False)"
    using wav_import_written [OF assms(1) wav_clm_data_parsed(1,2) [OF assms(3-6)], of d sz r0]
      total assms(9)
    by (simp add: f_def r3_def sz_def wav_clm_data_parsed(3) [OF assms(3-6)])
  moreover have "calc_wave_count r3 = Inr (int (length d) div (wave_size r * fmt_bytes_p_block r))"
  proof -
    have block: "0 < fmt_bytes_p_block r" "fmt_bytes_p_block r < 65536"
      using assms(1,2) by (simp_all add: fmt_fields_fit_def)
    then have "0 < wave_size r * fmt_bytes_p_block r"
      using assms(3) by simp
    moreover have "wave_size r * fmt_bytes_p_block r \<le> 9999 * 65536"
      using assms(3,4) block by (intro mult_mono) simp_all
    then have "wave_size r * fmt_bytes_p_block r < 2 ^ 53" by simp
    moreover have "int (length d) < 2 ^ 53" using total by simp
    ultimately show ?thesis
      using calc_wave_count_exact [of r3 d] by (simp add: r3_def)
  qed
  ultimately have "wav_import r0 f
      = (r3\<lparr>wave_count := Some (int (length d) div (wave_size r * fmt_bytes_p_block r))\<rparr>, Inr False)"
    by (simp add: wav_import_def)
  with written show ?thesis
    by (simp add: r3_def)
qed

theorem wav_round_trip_witness:
  "\<exists>f r'. wav_write wav_example = Written f
     \<and> wav_import wavetable_init f = (r', Inr False)
     \<and> data_samples r' = Some [1, 2, 3, 4]
     \<and> wave_size r' = 2048
     \<and> wave_interp r' = 0
     \<and> wave_vendor r' = ascii ''wavetable (wavetabletools)'' @ [0x00]
     \<and> wave_count r' = Some 0"
proof -
  have h: "fmt_fields_fit wav_example" "fmt_bytes_p_block wav_example \<noteq> 0"
    "1000 \<le> wave_size wav_example" "wave_size wav_example \<le> 9999"
    "0 \<le> wave_interp wav_example" "wave_interp wav_example \<le> 9"
    "data_samples wav_example = Some [1, 2, 3, 4]"
    "61 + int (length (wave_vendor wav_example))
       + (if even (length (wave_vendor wav_example)) then 1 else 0)
       + int (length [1, 2, 3, 4 :: byte]) < 2 ^ 32"
    "no_samples wavetable_init"
    by (simp_all add: wav_example_def wavetable_init_def fmt_fields_fit_def no_samples_def
        ascii_def)
  from wav_round_trip [OF h] obtain f r' where
    "wav_write wav_example = Written f" "wav_import wavetable_init f = (r', Inr False)"
    "data_samples r' = Some [1, 2, 3, 4]" "wave_size r' = wave_size wav_example"
    "wave_interp r' = wave_interp wav_example"
    "wave_vendor r' = wave_vendor wav_example
                        @ (if even (length (wave_vendor wav_example)) then [0x00] else [])"
    "wave_count r' = Some (int (length [1, 2, 3, 4 :: byte])
                             div (wave_size wav_example * fmt_bytes_p_block wav_example))"
    by blast
  then show ?thesis
    by (intro exI [of _ f] exI [of _ r'])
      (simp add: wav_example_def wavetable_init_def ascii_def)
qed

subsection \<open>Records that do not come back\<close>

lemma short_size_clm: "wav_clm_data short_size_example
  = [0x3C, 0x21, 0x3E, 0x32, 0x35, 0x36, 0x20, 0x31, 0x30, 0x30, 0x30, 0x30, 0x30, 0x30, 0x30, 0x20, 0x41, 0x42]"
  by (simp add: wav_clm_data_def short_size_example_def wavetable_init_def py_str_def decimal.simps)

lemma short_size_written: "wav_write short_size_example = Written short_size_file"
  using wav_write_layout [of short_size_example "[1, 2, 3, 4]"]
  by (simp add: short_size_file_def short_size_clm)
    (simp add: short_size_example_def wavetable_init_def fmt_fields_fit_def)

lemma short_size_import:
  "wave_size (fst (wav_import wavetable_init short_size_file)) = 256"
  "wave_interp (fst (wav_import wavetable_init short_size_file)) = 0"
  "wave_vendor (fst (wav_import wavetable_init short_size_file)) = [0x42]"
proof -
  have fit: "fmt_fields_fit short_size_example"
    by (simp add: short_size_example_def wavetable_init_def fmt_fields_fit_def)
  have ws: "py_int (py_slice (wav_clm_data short_size_example) 3 7) = Inr 256"
    by (simp add: short_size_clm py_slice_def py_int_def is_space_def is_digit_def
        digit_value_def)
  have wi: "py_int (py_slice (wav_clm_data short_size_example) 8 9) = Inr 0"
    by (simp add: short_size_clm py_slice_def py_int_def is_space_def is_digit_def
        digit_value_def)
  have fresh: "no_samples wavetable_init"
    by (simp add: no_samples_def wavetable_init_def)
  note loop = wav_import_written [OF fit ws wi _ _ _ fresh, of "[1, 2, 3, 4]" "le_bytes 4 66"]
  have "wav_import_loop wavetable_init short_size_file 0
          = (wavetable_init\<lparr>fmt_audio_format := fmt_audio_format short_size_example,
                fmt_channels := fmt_channels short_size_example,
                fmt_sample_rate := fmt_sample_rate short_size_example,
                fmt_bytes_p_sec := fmt_bytes_p_sec short_size_example,
                fmt_bytes_p_block := fmt_bytes_p_block short_size_example,
                fmt_bits_p_sample := fmt_bits_p_sample short_size_example,
                wave_size := 256,
                wave_interp := 0,
                wave_vendor := drop 17 (wav_clm_data short_size_example),
                data_samples := Some [1, 2, 3, 4]\<rparr>, Inr False)"
    unfolding short_size_file_def by (rule loop) (simp_all add: short_size_clm)
  from wav_import_after_loop [OF this]
  show "wave_size (fst (wav_import wavetable_init short_size_file)) = 256"
    "wave_interp (fst (wav_import wavetable_init short_size_file)) = 0"
    "wave_vendor (fst (wav_import wavetable_init short_size_file)) = [0x42]"
    by (simp_all add: short_size_clm)
qed

lemma wav_example_import:
  "wav_write wav_example = Written wav_example_file"
  "wave_vendor (fst (wav_import wavetable_init wav_example_file)) = wave_vendor wav_example @ [0x00]"
proof -
  have fit: "fmt_fields_fit wav_example"
    by (simp add: wav_example_def wavetable_init_def fmt_fields_fit_def)
  have rng: "1000 \<le> wave_size wav_example" "wave_size wav_example \<le> 9999"
    "0 \<le> wave_interp wav_example" "wave_interp wav_example \<le> 9"
    by (simp_all add: wav_example_def wavetable_init_def)
  have len: "length (wav_clm_data wav_example) = 44"
    using length_wav_clm_data [OF rng] by (simp add: wav_example_def wavetable_init_def ascii_def)
  show "wav_write wav_example = Written wav_example_file"
    using wav_write_layout [of wav_example "[1, 2, 3, 4]"] fit
    by (simp add: wav_example_file_def len) (simp add: wav_example_def wavetable_init_def)
  have fresh: "no_samples wavetable_init"
    by (simp add: no_samples_def wavetable_init_def)
  note loop = wav_import_written [OF fit wav_clm_data_parsed(1,2) [OF rng] _ _ _ fresh,
      of "[1, 2, 3, 4]" "le_bytes 4 92"]
  have "wav_import_loop wavetable_init wav_example_file 0
          = (wavetable_init\<lparr>fmt_audio_format := fmt_audio_format wav_example,
                fmt_channels := fmt_channels wav_example,
                fmt_sample_rate := fmt_sample_rate wav_example,
                fmt_bytes_p_sec := fmt_bytes_p_sec wav_example,
                fmt_bytes_p_block := fmt_bytes_p_block wav_example,
                fmt_bits_p_sample := fmt_bits_p_sample wav_example,
                wave_size := wave_size wav_example,
                wave_interp := wave_interp wav_example,
                wave_vendor := drop 17 (wav_clm_data wav_example),
                data_samples := Some [1, 2, 3, 4]\<rparr>, Inr False)"
    unfolding wav_example_file_def by (rule loop) (simp_all add: len)
  from wav_import_after_loop(3) [OF this]
  show "wave_vendor (fst (wav_import wavetable_init wav_example_file)) = wave_vendor wav_example @ [0x00]"
    by (simp add: wav_clm_data_parsed(3) [OF rng]) (simp add: wav_example_def wavetable_init_def ascii_def)
qed

lemma wide_rate_written:
  "wav_write wide_rate_example
     = Failed OverflowError [0x52, 0x49, 0x46, 0x46, 0, 0, 0, 0, 0x57, 0x41, 0x56, 0x45,
         0x66, 0x6D, 0x74, 0x20, 16, 0, 0, 0, 1, 0, 1, 0]"
  by (simp add: wav_write_def wide_rate_example_def wavetable_init_def to_bytes_def
      le_bytes_numeral Let_def)

text \<open>
  Three records that do not come back. The constructor's defaults with four bytes of
  samples: the vendor string has 26 bytes, the clm payload 43, and the vendor read back
  ends with the padding byte. A \<^verbatim>\<open>wave_size\<close> of three digits: the payload is
  \<^verbatim>\<open><!>256 10000000 AB\<close>, the fixed offsets read the interpolation from the first
  zero after it and the vendor from its second byte. A sample rate of \<open>2 ^ 32\<close>:
  \<^verbatim>\<open>to_bytes\<close> raises after 24 bytes are written.
\<close>

theorem wav_round_trip_counterexample:
  "wav_write wav_example = Written wav_example_file
   \<and> wave_vendor (fst (wav_import wavetable_init wav_example_file)) = wave_vendor wav_example @ [0x00]
   \<and> wav_write short_size_example = Written short_size_file
   \<and> wave_interp short_size_example = 1
   \<and> wave_interp (fst (wav_import wavetable_init short_size_file)) = 0
   \<and> wave_vendor short_size_example = [0x41, 0x42]
   \<and> wave_vendor (fst (wav_import wavetable_init short_size_file)) = [0x42]
   \<and> wav_write wide_rate_example
       = Failed OverflowError [0x52, 0x49, 0x46, 0x46, 0, 0, 0, 0, 0x57, 0x41, 0x56, 0x45,
           0x66, 0x6D, 0x74, 0x20, 16, 0, 0, 0, 1, 0, 1, 0]"
  by (simp add: wav_example_import short_size_written short_size_import wide_rate_written)
    (simp add: short_size_example_def)

end
